theory Spec2Isabelle
  imports
    Main
    "HOL-Library.AList"
    "HOL-Library.Char_ord"
    "HOL-Library.List_Lexorder"
    "HOL-Library.Multiset"
begin

section \<open>The code model of \<open>noc_codegen_base\<close>\<close>

text \<open>
  A shallow embedding of \<^verbatim>\<open>src/nocmodel/noc_codegen_base.py\<close>: the class
  \<^verbatim>\<open>noc_codegen_base\<close> with its model management methods \<^verbatim>\<open>add_generic\<close>,
  \<^verbatim>\<open>add_port\<close>, \<^verbatim>\<open>add_external_signal\<close>, \<^verbatim>\<open>build_implementation\<close> and
  \<^verbatim>\<open>model_hash\<close>, and the helper structures at the end of the module.

  The module is Python 2 (\<^verbatim>\<open>filter\<close> returns a list). Generics, ports and signals are
  dictionaries with string keys; they are association lists here, read with
  \<^const>\<open>map_of\<close> and written with \<^const>\<open>AList.update\<close>, which replaces the value of a key
  that is present and appends a key that is new. The methods mutate \<^verbatim>\<open>self\<close> in place:
  each one takes the object and returns its outcome together with the object as the
  call leaves it, also when the call raises.
\<close>

subsection \<open>Python values\<close>

text \<open>
  The values that reach this module: \<^verbatim>\<open>None\<close>, \<^verbatim>\<open>bool\<close>, \<^verbatim>\<open>int\<close>, MyHDL's \<^verbatim>\<open>intbv\<close>
  (by its integer value), \<^verbatim>\<open>str\<close>, lists, dictionaries with string keys, and MyHDL
  signals (\<^verbatim>\<open>SignalType\<close>, by the initial value \<^verbatim>\<open>_init\<close>).
\<close>

datatype pyval =
    PNone
  | PBool bool
  | PInt int
  | PIntbv int
  | PStr string
  | PList "pyval list"
  | PDict "(string \<times> pyval) list"
  | PSignal pyval

type_synonym dict = "(string \<times> pyval) list"

datatype pytype =
  NoneType | BoolType | IntType | IntbvType | StrType | ListType | DictType | SignalType

fun type_of :: "pyval \<Rightarrow> pytype" where
  "type_of PNone = NoneType"
| "type_of (PBool b) = BoolType"
| "type_of (PInt i) = IntType"
| "type_of (PIntbv i) = IntbvType"
| "type_of (PStr s) = StrType"
| "type_of (PList xs) = ListType"
| "type_of (PDict d) = DictType"
| "type_of (PSignal v) = SignalType"

text \<open>\<^verbatim>\<open>isinstance(v, (t1, ..., tn))\<close>; \<^verbatim>\<open>bool\<close> is a subclass of \<^verbatim>\<open>int\<close>.\<close>

definition isinstance :: "pyval \<Rightarrow> pytype list \<Rightarrow> bool" where
  "isinstance v ts = (type_of v \<in> set ts \<or> (type_of v = BoolType \<and> IntType \<in> set ts))"

text \<open>
  Python's \<^verbatim>\<open>==\<close>. Numbers compare by value across \<^verbatim>\<open>bool\<close>, \<^verbatim>\<open>int\<close> and \<^verbatim>\<open>intbv\<close>,
  a signal compares as its value does, lists compare element by element and
  dictionaries key by key; values of different kinds are unequal.
\<close>

fun py_num :: "pyval \<Rightarrow> int option" where
  "py_num (PBool b) = Some (if b then 1 else 0)"
| "py_num (PInt i) = Some i"
| "py_num (PIntbv i) = Some i"
| "py_num _ = None"

fun py_eq :: "pyval \<Rightarrow> pyval \<Rightarrow> bool" where
  "py_eq (PSignal v) w = py_eq v w"
| "py_eq v (PSignal w) = py_eq v w"
| "py_eq (PStr a) (PStr b) = (a = b)"
| "py_eq PNone PNone = True"
| "py_eq (PList xs) (PList ys) = list_all2 py_eq xs ys"
| "py_eq (PDict d) (PDict e) =
     (set (map fst d) = set (map fst e) \<and>
      list_all (\<lambda>(k, v). case map_of e k of None \<Rightarrow> False | Some w \<Rightarrow> py_eq v w) d)"
| "py_eq v w = (case (py_num v, py_num w) of (Some i, Some j) \<Rightarrow> i = j | _ \<Rightarrow> False)"

subsection \<open>Exceptions\<close>

text \<open>
  The exceptions the module raises, with the fixed part of their message. The last four
  messages are those of the interpreter: a keyword argument that names a positional
  parameter, a subscript on a value that is not a dictionary, an iteration over a value
  that is not a list, and \<^verbatim>\<open>len\<close> of a value that has none.
\<close>

datatype pyerr =
    TypeError string
  | ValueError string
  | KeyError string

definition name_msg :: string where
  "name_msg = ''Name must be string''"

definition unsupported_msg :: string where
  "unsupported_msg = ''Unsupported type''"

definition signal_desc_msg :: string where
  "signal_desc_msg = ''Argument signal_desc must be a signal dict''"

definition direction_msg :: string where
  "direction_msg = ''Direction must be in or out''"

definition multiple_msg :: string where
  "multiple_msg = ''got multiple values for keyword argument''"

definition subscript_msg :: string where
  "subscript_msg = ''object is not a dictionary''"

definition iterable_msg :: string where
  "iterable_msg = ''object is not a list''"

definition len_msg :: string where
  "len_msg = ''object has no len()''"

subsection \<open>Dictionaries\<close>

text \<open>
  \<^verbatim>\<open>d.update(kw)\<close>: every entry of \<open>kw\<close> is written into \<open>d\<close>. (A dictionary has each
  key once. Where an association list has a key twice, \<^const>\<open>map_of\<close> reads the first
  entry, and so does the update.)
\<close>

definition dict_update :: "dict \<Rightarrow> dict \<Rightarrow> dict" where
  "dict_update d kw = foldr (\<lambda>(k, v) acc. AList.update k v acc) kw d"

text \<open>
  \<^verbatim>\<open>x[k]\<close> with a string \<open>k\<close>: KeyError on a dictionary without the key. On a value that
  is not a dictionary Python raises too; the model reports a TypeError for all of them.
\<close>

fun getitem :: "pyval \<Rightarrow> string \<Rightarrow> pyerr + pyval" where
  "getitem (PDict d) k = (case map_of d k of None \<Rightarrow> Inl (KeyError k) | Some v \<Rightarrow> Inr v)"
| "getitem _ k = Inl (TypeError subscript_msg)"

text \<open>
  \<^verbatim>\<open>filter(lambda x: x["name"] == name, xs)\<close>. The objects of the result are the objects of
  \<open>xs\<close>, which the callers go on to mutate, so the result is the list of their positions
  in \<open>xs\<close>. The lambda runs on every element, and the first element without a name raises.
\<close>

fun filter_name :: "pyval \<Rightarrow> pyval list \<Rightarrow> pyerr + nat list" where
  "filter_name name [] = Inr []"
| "filter_name name (x # xs) =
     (case getitem x ''name'' of
        Inl e \<Rightarrow> Inl e
      | Inr v \<Rightarrow>
          (case filter_name name xs of
             Inl e \<Rightarrow> Inl e
           | Inr js \<Rightarrow> Inr ((if py_eq v name then [0] else []) @ map Suc js)))"

text \<open>
  A keyword argument named like one of the method's own parameters never reaches
  \<^verbatim>\<open>**kwargs\<close>: it binds the parameter, and the call is rejected with a TypeError before
  the body runs when the parameter is given positionally as well.
\<close>

definition clashes :: "string list \<Rightarrow> dict \<Rightarrow> bool" where
  "clashes params kwargs = (\<exists>k \<in> set params. k \<in> set (map fst kwargs))"

subsection \<open>Helper structures\<close>

definition empty_generic :: dict where
  "empty_generic =
     [(''class'', PStr ''generic''),
      (''name'', PStr ''''),
      (''type'', PStr ''''),
      (''type_array'', PList [PNone, PNone]),
      (''default_value'', PStr ''''),
      (''current_value'', PStr ''''),
      (''description'', PStr '''')]"

definition empty_port :: dict where
  "empty_port =
     [(''class'', PStr ''port''),
      (''name'', PStr ''''),
      (''type'', PStr ''''),
      (''nocport'', PNone),
      (''signal_list'', PList []),
      (''description'', PStr '''')]"

definition empty_signal :: dict where
  "empty_signal =
     [(''class'', PStr ''signal''),
      (''name'', PStr ''''),
      (''type'', PStr ''''),
      (''type_array'', PList [PNone, PNone]),
      (''direction'', PStr ''''),
      (''default_value'', PStr ''''),
      (''related_generics'', PList []),
      (''description'', PStr '''')]"

definition get_new_generic :: "dict \<Rightarrow> dict" where
  "get_new_generic kwargs = dict_update empty_generic kwargs"

definition get_new_port :: "dict \<Rightarrow> dict" where
  "get_new_port kwargs = dict_update empty_port kwargs"

definition get_new_signal :: "dict \<Rightarrow> dict" where
  "get_new_signal kwargs = dict_update empty_signal kwargs"

subsection \<open>The object\<close>

text \<open>
  The noc object that the code model describes is read by \<^verbatim>\<open>build_implementation\<close> only:
  it may have an attribute \<^verbatim>\<open>codemodel\<close>, which may have an attribute
  \<^verbatim>\<open>generate_implementation\<close>, which may be callable. A callable is given by what the call
  without arguments does: it returns a value or raises.
\<close>

datatype attribute = NotCallable | Callable "pyerr + pyval"

record codemodel_obj =
  generate_implementation :: "attribute option"

record nocobject =
  codemodel :: "codemodel_obj option"

text \<open>
  The attributes of \<^verbatim>\<open>noc_codegen_base\<close>, and the warnings that \<^verbatim>\<open>warnings.warn\<close> has
  recorded, oldest first.
\<close>

record model =
  nocobject_ref :: nocobject
  external_conversion :: bool
  docheader :: string
  libraries :: string
  modulename :: string
  generics :: "dict list"
  ports :: "dict list"
  external_signals :: "dict list"
  implementation :: string
  interface_hash :: string
  warnings :: "string list"

text \<open>\<^verbatim>\<open>__init__\<close> without optional arguments.\<close>

definition init :: "nocobject \<Rightarrow> model" where
  "init ref =
     \<lparr>nocobject_ref = ref, external_conversion = False,
      docheader = '''', libraries = '''', modulename = '''',
      generics = [], ports = [], external_signals = [],
      implementation = '''', interface_hash = '''', warnings = []\<rparr>"

subsection \<open>Model management\<close>

definition add_generic ::
    "model \<Rightarrow> pyval \<Rightarrow> pyval \<Rightarrow> pyval \<Rightarrow> dict \<Rightarrow> (pyerr + dict) \<times> model" where
  "add_generic self name val description kwargs =
     (if clashes [''name'', ''value'', ''description''] kwargs then
        (Inl (TypeError multiple_msg), self)
      else if \<not> isinstance name [StrType] then (Inl (TypeError name_msg), self)
      else if \<not> isinstance val [BoolType, IntType, IntbvType, StrType] then
        (Inl (TypeError unsupported_msg), self)
      else
        (case filter_name name (map PDict (generics self)) of
           Inl e \<Rightarrow> (Inl e, self)
         | Inr [] \<Rightarrow>
             (let g = get_new_generic [(''name'', name)];
                  g = dict_update g [(''default_value'', val), (''description'', description)];
                  g = dict_update g kwargs
              in (Inr g, self\<lparr>generics := generics self @ [g]\<rparr>))
         | Inr (i # _) \<Rightarrow>
             (let g = generics self ! i;
                  g = dict_update g [(''default_value'', val), (''description'', description)];
                  g = dict_update g kwargs
              in (Inr g, self\<lparr>generics := (generics self)[i := g]\<rparr>))))"

text \<open>
  \<^verbatim>\<open>add_port\<close>: \<open>signal_desc\<close> is \<^verbatim>\<open>None\<close> or a dictionary. The port is found or appended
  first, then its description is written, then the signal is merged into its signal
  list; an exception of the third step leaves the first two done.
\<close>

definition bad_signal_desc :: "dict option \<Rightarrow> bool" where
  "bad_signal_desc signal_desc =
     (case signal_desc of
        None \<Rightarrow> False
      | Some sd \<Rightarrow>
          (if \<not> (\<forall>x \<in> set [''class'', ''name'']. x \<in> set (map fst sd)) then True
           else (case map_of sd ''class'' of
                   None \<Rightarrow> True
                 | Some c \<Rightarrow> \<not> py_eq c (PStr ''signal''))))"

text \<open>
  The merge of \<open>signal_desc\<close> into the port's signal list: the signal of that name is
  updated where there is one, and \<open>signal_desc\<close> is appended where there is none.
  (\<^verbatim>\<open>add_port\<close> has checked that \<open>signal_desc\<close> has a name.) Whatever the port holds as
  its signal list that is not a list of dictionaries makes Python raise here; the model
  reports a TypeError.
\<close>

definition merge_signal :: "dict \<Rightarrow> dict \<Rightarrow> pyerr + dict" where
  "merge_signal p signal_desc =
     (case getitem (PDict p) ''signal_list'' of
        Inl e \<Rightarrow> Inl e
      | Inr (PList sigs) \<Rightarrow>
          (case getitem (PDict signal_desc) ''name'' of
             Inl e \<Rightarrow> Inl e
           | Inr n \<Rightarrow>
               (case filter_name n sigs of
                  Inl e \<Rightarrow> Inl e
                | Inr [] \<Rightarrow>
                    Inr (AList.update ''signal_list'' (PList (sigs @ [PDict signal_desc])) p)
                | Inr (j # _) \<Rightarrow>
                    (case sigs ! j of
                       PDict s \<Rightarrow>
                         Inr (AList.update ''signal_list''
                                (PList (sigs[j := PDict (dict_update s signal_desc)])) p)
                     | _ \<Rightarrow> Inl (TypeError subscript_msg))))
      | Inr _ \<Rightarrow> Inl (TypeError iterable_msg))"

definition add_port ::
    "model \<Rightarrow> pyval \<Rightarrow> dict option \<Rightarrow> pyval \<Rightarrow> dict \<Rightarrow> (pyerr + dict) \<times> model" where
  "add_port self name signal_desc description kwargs =
     (if clashes [''name'', ''signal_desc'', ''description''] kwargs then
        (Inl (TypeError multiple_msg), self)
      else if \<not> isinstance name [StrType] then (Inl (TypeError name_msg), self)
      else if bad_signal_desc signal_desc then (Inl (TypeError signal_desc_msg), self)
      else
        (case filter_name name (map PDict (ports self)) of
           Inl e \<Rightarrow> (Inl e, self)
         | Inr js \<Rightarrow>
             (let (i, ps) =
                    (case js of
                       [] \<Rightarrow> (length (ports self), ports self @ [get_new_port [(''name'', name)]])
                     | j # _ \<Rightarrow> (j, ports self));
                  p = ps ! i;
                  p = (if \<not> py_eq description (PStr '''')
                       then dict_update p [(''description'', description)] else p)
              in (case signal_desc of
                    None \<Rightarrow>
                      (let p = dict_update p kwargs
                       in (Inr p, self\<lparr>ports := ps[i := p]\<rparr>))
                  | Some sd \<Rightarrow>
                      (case merge_signal p sd of
                         Inl e \<Rightarrow> (Inl e, self\<lparr>ports := ps[i := p]\<rparr>)
                       | Inr p \<Rightarrow>
                           (let p = dict_update p kwargs
                            in (Inr p, self\<lparr>ports := ps[i := p]\<rparr>)))))))"

text \<open>The attribute \<^verbatim>\<open>_init\<close> of a signal.\<close>

fun init_of :: "pyval \<Rightarrow> pyval" where
  "init_of (PSignal v) = v"
| "init_of v = v"

definition add_external_signal ::
    "model \<Rightarrow> pyval \<Rightarrow> pyval \<Rightarrow> pyval \<Rightarrow> pyval \<Rightarrow> dict \<Rightarrow> (pyerr + dict) \<times> model" where
  "add_external_signal self name direction val description kwargs =
     (if clashes [''name'', ''direction'', ''value'', ''description''] kwargs then
        (Inl (TypeError multiple_msg), self)
      else if \<not> isinstance name [StrType] then (Inl (TypeError name_msg), self)
      else
        (let val = (if isinstance val [SignalType] then init_of val else val)
         in if \<not> isinstance val [BoolType, IntType, IntbvType] then
              (Inl (TypeError unsupported_msg), self)
            else if \<not> (\<exists>d \<in> set [PStr ''in'', PStr ''out'']. py_eq direction d) then
              (Inl (ValueError direction_msg), self)
            else
              (case filter_name name (map PDict (external_signals self)) of
                 Inl e \<Rightarrow> (Inl e, self)
               | Inr [] \<Rightarrow>
                   (let sig = get_new_signal [(''name'', name)];
                        sig = dict_update sig
                                [(''direction'', direction), (''default_value'', val),
                                 (''description'', description)];
                        sig = dict_update sig kwargs
                    in (Inr sig, self\<lparr>external_signals := external_signals self @ [sig]\<rparr>))
               | Inr (i # _) \<Rightarrow>
                   (let sig = external_signals self ! i;
                        sig = dict_update sig
                                [(''direction'', direction), (''default_value'', val),
                                 (''description'', description)];
                        sig = dict_update sig kwargs
                    in (Inr sig,
                        self\<lparr>external_signals := (external_signals self)[i := sig]\<rparr>)))))"

subsection \<open>The implementation section\<close>

definition warn :: "string \<Rightarrow> model \<Rightarrow> model" where
  "warn msg self = self\<lparr>warnings := warnings self @ [msg]\<rparr>"

definition not_found_msg :: string where
  "not_found_msg = ''Method generate_implementation() not found.''"

definition not_callable_msg :: string where
  "not_callable_msg = ''Attribute generate_implementation() not callable''"

text \<open>The last statement: \<open>implementation\<close> is stored when it is a string.\<close>

definition store_implementation :: "pyval \<Rightarrow> model \<Rightarrow> model" where
  "store_implementation impl self =
     (if isinstance impl [StrType]
      then (case impl of PStr s \<Rightarrow> self\<lparr>implementation := s\<rparr> | _ \<Rightarrow> self)
      else self)"

definition build_implementation :: "model \<Rightarrow> (pyerr + unit) \<times> model" where
  "build_implementation self =
     (case codemodel (nocobject_ref self) of
        None \<Rightarrow> (Inr (), self)
      | Some cm \<Rightarrow>
          (let impl = PStr ''''
           in (case generate_implementation cm of
                 None \<Rightarrow> (Inr (), store_implementation impl (warn not_found_msg self))
               | Some NotCallable \<Rightarrow>
                   (Inr (), store_implementation impl (warn not_callable_msg self))
               | Some (Callable call) \<Rightarrow>
                   (case call of
                      Inl e \<Rightarrow> (Inl e, self)
                    | Inr impl \<Rightarrow> (Inr (), store_implementation impl self)))))"

subsection \<open>The model hash\<close>

text \<open>
  The entries that the three loops of \<^verbatim>\<open>model_hash\<close> append: name and type, and a third
  component that is computed and never printed. A missing key raises KeyError, and
  \<^verbatim>\<open>len\<close> of a signal list that has no length raises TypeError.
\<close>

fun py_len :: "pyval \<Rightarrow> pyerr + nat" where
  "py_len (PList xs) = Inr (length xs)"
| "py_len (PDict d) = Inr (length d)"
| "py_len (PStr s) = Inr (length s)"
| "py_len _ = Inl (TypeError len_msg)"

definition generic_entry :: "dict \<Rightarrow> pyerr + pyval list" where
  "generic_entry g =
     (case getitem (PDict g) ''name'' of
        Inl e \<Rightarrow> Inl e
      | Inr n \<Rightarrow>
          (case getitem (PDict g) ''type'' of
             Inl e \<Rightarrow> Inl e
           | Inr t \<Rightarrow> Inr [n, t]))"

definition port_entry :: "dict \<Rightarrow> pyerr + pyval list" where
  "port_entry g =
     (case getitem (PDict g) ''name'' of
        Inl e \<Rightarrow> Inl e
      | Inr n \<Rightarrow>
          (case getitem (PDict g) ''type'' of
             Inl e \<Rightarrow> Inl e
           | Inr t \<Rightarrow>
               (case getitem (PDict g) ''signal_list'' of
                  Inl e \<Rightarrow> Inl e
                | Inr sl \<Rightarrow>
                    (case py_len sl of
                       Inl e \<Rightarrow> Inl e
                     | Inr l \<Rightarrow> Inr [n, t, PInt (int l)]))))"

definition external_entry :: "dict \<Rightarrow> pyerr + pyval list" where
  "external_entry g =
     (case getitem (PDict g) ''name'' of
        Inl e \<Rightarrow> Inl e
      | Inr n \<Rightarrow>
          (case getitem (PDict g) ''type'' of
             Inl e \<Rightarrow> Inl e
           | Inr t \<Rightarrow>
               (case getitem (PDict g) ''direction'' of
                  Inl e \<Rightarrow> Inl e
                | Inr d \<Rightarrow> Inr [n, t, d])))"

text \<open>A loop over a collection raises at the first entry that raises.\<close>

fun entries :: "(dict \<Rightarrow> pyerr + 'a) \<Rightarrow> dict list \<Rightarrow> pyerr + 'a list" where
  "entries f [] = Inr []"
| "entries f (g # gs) =
     (case f g of
        Inl e \<Rightarrow> Inl e
      | Inr x \<Rightarrow> (case entries f gs of Inl e \<Rightarrow> Inl e | Inr xs \<Rightarrow> Inr (x # xs)))"

text \<open>
  The entries are sorted by \<^verbatim>\<open>x[0]\<close> and printed as \<^verbatim>\<open>"%s%s" % (g[0], g[1])\<close>. The schema
  of the class makes names and types strings, and the stream is modelled on strings:
  Python orders strings byte by byte, as the lexicographic order of \<^typ>\<open>string\<close> does,
  \<^verbatim>\<open>list.sort\<close> is stable, as \<^const>\<open>sort_key\<close> is, and \<^verbatim>\<open>%s\<close> prints a string as it is.
  Python 2 sorts and prints any other value too, in ways that are outside this embedding:
  the stream is \<open>None\<close> when a name or a type is not a string.
\<close>

fun name_type :: "pyval list \<Rightarrow> (string \<times> string) option" where
  "name_type (PStr n # PStr t # _) = Some (n, t)"
| "name_type _ = None"

definition hash_stream :: "pyval list list \<Rightarrow> string option" where
  "hash_stream hash_gen =
     (case those (map name_type hash_gen) of
        None \<Rightarrow> None
      | Some gs \<Rightarrow> Some (concat (map (\<lambda>g. fst g @ snd g) (sort_key fst gs))))"

text \<open>
  The outcome of \<^verbatim>\<open>model_hash\<close>: the hash string, an exception, or \<open>Unmodelled\<close> where
  Python returns a string that the embedding does not compute.
\<close>

datatype outcome = Returns string | Raises pyerr | Unmodelled

definition model_hash :: "model \<Rightarrow> outcome \<times> model" where
  "model_hash self =
     (case entries generic_entry (generics self) of
        Inl e \<Rightarrow> (Raises e, self)
      | Inr hash_gen \<Rightarrow>
          (case entries port_entry (ports self) of
             Inl e \<Rightarrow> (Raises e, self)
           | Inr hash_port \<Rightarrow>
               (case entries external_entry (external_signals self) of
                  Inl e \<Rightarrow> (Raises e, self)
                | Inr hash_ext \<Rightarrow>
                    (case (hash_stream hash_gen, hash_stream hash_port, hash_stream hash_ext) of
                       (Some h1, Some h2, Some h3) \<Rightarrow>
                         (let hash_str = h1 @ h2 @ h3
                          in (Returns hash_str, self\<lparr>interface_hash := hash_str\<rparr>))
                     | _ \<Rightarrow> (Unmodelled, self)))))"

subsection \<open>Notions of the claims\<close>

text \<open>
  The validation errors of the three methods: a name that is not a string, a value of
  an unsupported type, a malformed \<open>signal_desc\<close>, and a direction that is neither
  \<^verbatim>\<open>"in"\<close> nor \<^verbatim>\<open>"out"\<close>.
\<close>

definition validation_error :: "pyerr \<Rightarrow> bool" where
  "validation_error e \<longleftrightarrow>
     e = TypeError name_msg \<or> e = TypeError unsupported_msg \<or>
     e = TypeError signal_desc_msg \<or> e = ValueError direction_msg"


text \<open>Every record of a collection has a name, so that a search does not raise.\<close>

definition has_names :: "dict list \<Rightarrow> bool" where
  "has_names xs \<longleftrightarrow> (\<forall>x \<in> set xs. ''name'' \<in> set (map fst x))"

subsection \<open>Find or create\<close>

text \<open>
  The three methods share one shape: the record of the given name is searched for; it
  is updated in place when there is one, and a new record is appended, updated in the
  same way, when there is none. The collection after such a step, for an update \<open>u\<close>
  and a new record \<open>c\<close>:
\<close>

definition find_or_create :: "pyval \<Rightarrow> (dict \<Rightarrow> dict) \<Rightarrow> dict \<Rightarrow> dict list \<Rightarrow> dict list" where
  "find_or_create name u c xs =
     (case filter_name name (map PDict xs) of
        Inl e \<Rightarrow> xs
      | Inr [] \<Rightarrow> xs @ [u c]
      | Inr (i # _) \<Rightarrow> xs[i := u (xs ! i)])"

text \<open>One part of the hash, as \<^const>\<open>model_hash\<close> computes it for each collection.\<close>

definition hash_part :: "(dict \<Rightarrow> pyerr + pyval list) \<Rightarrow> dict list \<Rightarrow> pyerr + string option" where
  "hash_part f xs =
     (case entries f xs of Inl e \<Rightarrow> Inl e | Inr es \<Rightarrow> Inr (hash_stream es))"

text \<open>
  The updates of the three methods, as functions of the record they are applied to.
  The update of \<^verbatim>\<open>add_port\<close> stops after the description when the merge of the signal
  raises.
\<close>

definition generic_after :: "pyval \<Rightarrow> pyval \<Rightarrow> dict \<Rightarrow> dict \<Rightarrow> dict" where
  "generic_after val description kwargs g =
     dict_update (dict_update g [(''default_value'', val), (''description'', description)])
       kwargs"

definition described :: "pyval \<Rightarrow> dict \<Rightarrow> dict" where
  "described description p =
     (if \<not> py_eq description (PStr '''')
      then dict_update p [(''description'', description)] else p)"

definition port_after :: "dict option \<Rightarrow> pyval \<Rightarrow> dict \<Rightarrow> dict \<Rightarrow> dict" where
  "port_after signal_desc description kwargs p =
     (case signal_desc of
        None \<Rightarrow> dict_update (described description p) kwargs
      | Some sd \<Rightarrow>
          (case merge_signal (described description p) sd of
             Inl e \<Rightarrow> described description p
           | Inr p' \<Rightarrow> dict_update p' kwargs))"

definition signal_after :: "pyval \<Rightarrow> pyval \<Rightarrow> pyval \<Rightarrow> dict \<Rightarrow> dict \<Rightarrow> dict" where
  "signal_after direction val description kwargs sig =
     dict_update
       (dict_update sig
          [(''direction'', direction), (''default_value'', val),
           (''description'', description)])
       kwargs"



text \<open>
  Two records that differ in the given keys only, and two models that differ only in
  the default values, current values, descriptions and array bounds of their generics
  and signals. The signals of a port are the records of its signal list.
\<close>

definition same_but :: "string list \<Rightarrow> dict \<Rightarrow> dict \<Rightarrow> bool" where
  "same_but ks d d' \<longleftrightarrow>
     (\<forall>k \<in> set (map fst d) \<union> set (map fst d'). k \<notin> set ks \<longrightarrow> map_of d k = map_of d' k)"

definition value_keys :: "string list" where
  "value_keys = [''default_value'', ''current_value'', ''description'', ''type_array'']"

fun same_signal :: "pyval \<Rightarrow> pyval \<Rightarrow> bool" where
  "same_signal (PDict s) (PDict s') = same_but value_keys s s'"
| "same_signal v v' = (v = v')"

fun same_signal_list :: "pyval option \<Rightarrow> pyval option \<Rightarrow> bool" where
  "same_signal_list (Some (PList xs)) (Some (PList ys)) = list_all2 same_signal xs ys"
| "same_signal_list v v' = (v = v')"

definition same_port :: "dict \<Rightarrow> dict \<Rightarrow> bool" where
  "same_port p p' \<longleftrightarrow>
     same_but (''signal_list'' # value_keys) p p' \<and>
     same_signal_list (map_of p ''signal_list'') (map_of p' ''signal_list'')"

definition same_interface :: "model \<Rightarrow> model \<Rightarrow> bool" where
  "same_interface m m' \<longleftrightarrow>
     list_all2 (same_but value_keys) (generics m) (generics m') \<and>
     list_all2 same_port (ports m) (ports m') \<and>
     list_all2 (same_but value_keys) (external_signals m) (external_signals m')"

text \<open>
  A collection with one field of its \<open>i\<close>-th record set to a new value, and a model
  whose hash is a string other than \<open>h\<close>.
\<close>

definition set_field :: "string \<Rightarrow> pyval \<Rightarrow> nat \<Rightarrow> dict list \<Rightarrow> dict list" where
  "set_field k v i xs = xs[i := AList.update k v (xs ! i)]"

definition hash_differs :: "string \<Rightarrow> model \<Rightarrow> bool" where
  "hash_differs h m = (case fst (model_hash m) of Returns h' \<Rightarrow> h' \<noteq> h | _ \<Rightarrow> False)"

subsection \<open>An example\<close>

text \<open>
  A model with one generic, one port with one signal, and one external signal; and the
  same model with other default values, current values, descriptions and array bounds.
\<close>

definition example_model :: model where
  "example_model =
     (init \<lparr>codemodel = None\<rparr>)
       \<lparr>generics :=
          [[(''class'', PStr ''generic''), (''name'', PStr ''DATA_WIDTH''),
            (''type'', PStr ''integer''), (''type_array'', PList [PNone, PNone]),
            (''default_value'', PInt 8), (''current_value'', PInt 8),
            (''description'', PStr ''width'')]],
        ports :=
          [[(''class'', PStr ''port''), (''name'', PStr ''clk_port''),
            (''type'', PStr ''clock''), (''nocport'', PNone),
            (''signal_list'',
             PList [PDict [(''class'', PStr ''signal''), (''name'', PStr ''clk''),
                           (''type'', PStr ''std_logic''),
                           (''type_array'', PList [PNone, PNone]),
                           (''direction'', PStr ''in''), (''default_value'', PBool False),
                           (''related_generics'', PList []), (''description'', PStr '''')]]),
            (''description'', PStr ''the clock'')]],
        external_signals :=
          [[(''class'', PStr ''signal''), (''name'', PStr ''rst''),
            (''type'', PStr ''std_logic''), (''type_array'', PList [PNone, PNone]),
            (''direction'', PStr ''in''), (''default_value'', PBool False),
            (''related_generics'', PList []), (''description'', PStr ''reset'')]]\<rparr>"

definition example_model_revalued :: model where
  "example_model_revalued =
     (init \<lparr>codemodel = None\<rparr>)
       \<lparr>generics :=
          [[(''class'', PStr ''generic''), (''name'', PStr ''DATA_WIDTH''),
            (''type'', PStr ''integer''), (''type_array'', PList [PInt 0, PStr ''N'']),
            (''default_value'', PInt 16), (''current_value'', PInt 32),
            (''description'', PStr ''bus width'')]],
        ports :=
          [[(''class'', PStr ''port''), (''name'', PStr ''clk_port''),
            (''type'', PStr ''clock''), (''nocport'', PNone),
            (''signal_list'',
             PList [PDict [(''class'', PStr ''signal''), (''name'', PStr ''clk''),
                           (''type'', PStr ''std_logic''),
                           (''type_array'', PList [PInt 0, PInt 7]),
                           (''direction'', PStr ''in''), (''default_value'', PBool True),
                           (''related_generics'', PList []),
                           (''description'', PStr ''system clock'')]]),
            (''description'', PStr ''clocks'')]],
        external_signals :=
          [[(''class'', PStr ''signal''), (''name'', PStr ''rst''),
            (''type'', PStr ''std_logic''), (''type_array'', PList [PInt 0, PInt 1]),
            (''direction'', PStr ''in''), (''default_value'', PInt 1),
            (''related_generics'', PList []), (''description'', PStr ''active high'')]]\<rparr>"

section \<open>Auxiliary facts\<close>

subsection \<open>Dictionaries and the search by name\<close>

lemma dict_update_Cons:
  "dict_update d ((k, v) # kw) = AList.update k v (dict_update d kw)"
  by (simp add: dict_update_def)

lemma map_of_dict_update:
  "map_of (dict_update d kw) k =
     (case map_of kw k of None \<Rightarrow> map_of d k | Some v \<Rightarrow> Some v)"
proof (induction kw)
  case Nil
  show ?case by (simp add: dict_update_def)
next
  case (Cons a kw)
  obtain k' v' where a: "a = (k', v')" by (cases a)
  with Cons.IH show ?case
    by (simp add: dict_update_Cons update_conv')
qed

lemma map_of_dict_update_other:
  "k \<notin> set (map fst kw) \<Longrightarrow> map_of (dict_update d kw) k = map_of d k"
proof -
  assume "k \<notin> set (map fst kw)"
  then have "map_of kw k = None"
    by (simp add: map_of_eq_None_iff)
  then show ?thesis by (simp add: map_of_dict_update)
qed

lemma keys_dict_update:
  "set (map fst (dict_update d kw)) = set (map fst d) \<union> set (map fst kw)"
proof (induction kw)
  case Nil
  show ?case by (simp add: dict_update_def)
next
  case (Cons a kw)
  obtain k' v' where a: "a = (k', v')" by (cases a)
  with Cons.IH dom_update [of k' v' "dict_update d kw"] show ?case
    by (auto simp: dict_update_Cons)
qed

lemma filter_name_cong:
  "map (\<lambda>x. getitem x ''name'') xs = map (\<lambda>x. getitem x ''name'') ys \<Longrightarrow>
   filter_name n xs = filter_name n ys"
proof (induction xs arbitrary: ys)
  case Nil
  then show ?case by simp
next
  case (Cons x xs)
  then obtain y ys' where ys: "ys = y # ys'" by (cases ys) auto
  with Cons.prems have "getitem x ''name'' = getitem y ''name''"
    and "map (\<lambda>x. getitem x ''name'') xs = map (\<lambda>x. getitem x ''name'') ys'"
    by simp_all
  with Cons.IH [of ys'] show ?case by (simp add: ys split: sum.splits)
qed

lemma filter_name_append:
  "filter_name n (xs @ [x]) =
     (case filter_name n xs of
        Inl e \<Rightarrow> (case list_all (\<lambda>x. \<not> isl (getitem x ''name'')) xs of _ \<Rightarrow> Inl e)
      | Inr js \<Rightarrow>
          (case getitem x ''name'' of
             Inl e \<Rightarrow> Inl e
           | Inr v \<Rightarrow> Inr (js @ (if py_eq v n then [length xs] else []))))"
  by (induction xs) (auto split: sum.splits)

lemma filter_name_Inr:
  "filter_name n xs = Inr js \<Longrightarrow>
   (\<forall>x \<in> set xs. \<exists>v. getitem x ''name'' = Inr v) \<and>
   js = filter (\<lambda>i. \<exists>v. getitem (xs ! i) ''name'' = Inr v \<and> py_eq v n) [0..<length xs]"
proof (induction xs arbitrary: js)
  case Nil
  then show ?case by simp
next
  case (Cons x xs)
  from Cons.prems obtain v js' where v: "getitem x ''name'' = Inr v"
    and js': "filter_name n xs = Inr js'"
    and js: "js = (if py_eq v n then [0] else []) @ map Suc js'"
    by (auto split: sum.splits)
  from Cons.IH [OF js'] have all: "\<forall>x \<in> set xs. \<exists>v. getitem x ''name'' = Inr v"
    and eq: "js' = filter (\<lambda>i. \<exists>v. getitem (xs ! i) ''name'' = Inr v \<and> py_eq v n) [0..<length xs]"
    by simp_all
  have "[0..<length (x # xs)] = 0 # map Suc [0..<length xs]"
    by (simp add: upt_conv_Cons map_Suc_upt del: upt_Suc)
  then have "filter (\<lambda>i. \<exists>v. getitem ((x # xs) ! i) ''name'' = Inr v \<and> py_eq v n) [0..<length (x # xs)]
      = (if py_eq v n then [0] else []) @ map Suc js'"
    using v eq by (simp add: filter_map comp_def del: upt_Suc)
  with js all v show ?case by simp
qed

lemma filter_name_Inl_indep:
  "filter_name n xs = Inl e \<Longrightarrow> filter_name n' xs = Inl e"
  by (induction xs) (auto split: sum.splits)

subsection \<open>Errors and what they leave behind\<close>

lemma isinstance_Str: "isinstance v [StrType] \<longleftrightarrow> (\<exists>s. v = PStr s)"
  by (cases v) (simp_all add: isinstance_def)

lemma filter_name_error:
  "filter_name n xs = Inl e \<Longrightarrow> e = KeyError ''name'' \<or> e = TypeError subscript_msg"
proof (induction xs)
  case Nil
  then show ?case by simp
next
  case (Cons x xs)
  then show ?case by (cases x) (auto split: sum.splits option.splits)
qed

lemma merge_signal_error:
  assumes "merge_signal p sd = Inl e"
  shows "e \<in> {KeyError ''signal_list'', KeyError ''name'', TypeError subscript_msg,
               TypeError iterable_msg}"
proof (cases "map_of p ''signal_list''")
  case None
  with assms show ?thesis by (simp add: merge_signal_def)
next
  case (Some sl)
  show ?thesis
  proof (cases sl)
    case (PList sigs)
    show ?thesis
    proof (cases "map_of sd ''name''")
      case None
      with assms Some PList show ?thesis by (simp add: merge_signal_def)
    next
      case sdn: (Some n)
      show ?thesis
      proof (cases "filter_name n sigs")
        case (Inl a)
        with assms Some PList sdn filter_name_error [OF Inl] show ?thesis
          by (auto simp: merge_signal_def)
      next
        case (Inr js)
        with assms Some PList sdn show ?thesis
          by (cases js) (auto simp: merge_signal_def split: pyval.splits)
      qed
    qed
  qed (use assms Some in \<open>simp_all add: merge_signal_def\<close>)
qed

lemma add_generic_atomic:
  "fst (add_generic m n v d kw) = Inl e \<Longrightarrow> snd (add_generic m n v d kw) = m"
  unfolding add_generic_def Let_def
  by (simp split: if_splits sum.splits list.splits)

lemma add_external_signal_atomic:
  assumes "fst (add_external_signal m n dir v d kw) = Inl e"
  shows "snd (add_external_signal m n dir v d kw) = m"
proof -
  define w where "w = (if isinstance v [SignalType] then init_of v else v)"
  show ?thesis
  proof (cases "filter_name n (map PDict (external_signals m))")
    case (Inl a)
    then show ?thesis
      unfolding add_external_signal_def Let_def w_def [symmetric] by simp
  next
    case (Inr js)
    with assms show ?thesis
      unfolding add_external_signal_def Let_def w_def [symmetric]
      by (cases js) (simp_all split: if_splits)
  qed
qed

lemma add_port_atomic:
  assumes "fst (add_port m n sd d kw) = Inl e"
    and "e = TypeError name_msg \<or> e = TypeError signal_desc_msg"
  shows "snd (add_port m n sd d kw) = m"
proof (cases "clashes [''name'', ''signal_desc'', ''description''] kw \<or>
    \<not> isinstance n [StrType] \<or> bad_signal_desc sd")
  case True
  then show ?thesis by (auto simp: add_port_def)
next
  case valid: False
  show ?thesis
  proof (cases "filter_name n (map PDict (ports m))")
    case (Inl a)
    with valid show ?thesis by (simp add: add_port_def)
  next
    case (Inr js)
    obtain i ps where ips: "(case js of [] \<Rightarrow> (length (ports m), ports m @ [get_new_port [(''name'', n)]])
                     | j # _ \<Rightarrow> (j, ports m)) = (i, ps)"
      by (cases "(case js of [] \<Rightarrow> (length (ports m), ports m @ [get_new_port [(''name'', n)]])
                     | j # _ \<Rightarrow> (j, ports m))")
    define p where "p = (if \<not> py_eq d (PStr '''')
                       then dict_update (ps ! i) [(''description'', d)] else ps ! i)"
    show ?thesis
    proof (cases sd)
      case None
      with valid Inr ips assms(1) show ?thesis
        by (simp add: add_port_def Let_def)
    next
      case (Some s)
      show ?thesis
      proof (cases "merge_signal p s")
        case (Inl a)
        with valid Inr ips Some assms(1) have "e = a"
          by (simp add: add_port_def Let_def p_def)
        with merge_signal_error [OF Inl] assms(2) have False
          by (auto simp: name_msg_def signal_desc_msg_def subscript_msg_def iterable_msg_def)
        then show ?thesis ..
      next
        case (Inr b)
        with valid \<open>filter_name n (map PDict (ports m)) = Inr js\<close> ips Some assms(1)
        show ?thesis
          by (simp add: add_port_def Let_def p_def)
      qed
    qed
  qed
qed

lemma py_eq_PStr_unique: "py_eq v (PStr a) \<Longrightarrow> py_eq v (PStr b) \<Longrightarrow> a = b"
  by (induction v) simp_all

lemma getitem_PDict_name:
  "getitem (PDict g) k = (case map_of g k of None \<Rightarrow> Inl (KeyError k) | Some v \<Rightarrow> Inr v)"
  by simp

lemma key_in_iff: "k \<in> fst ` set d \<longleftrightarrow> (\<exists>v. map_of d k = Some v)"
  by (induction d) auto

lemma has_names_filter_name:
  "has_names xs \<Longrightarrow> \<exists>js. filter_name n (map PDict xs) = Inr js"
proof (induction xs)
  case Nil
  then show ?case by simp
next
  case (Cons x xs)
  then have "has_names xs" and "\<exists>v. map_of x ''name'' = Some v"
    by (simp_all add: has_names_def key_in_iff)
  then obtain js v where "filter_name n (map PDict xs) = Inr js" and "map_of x ''name'' = Some v"
    using Cons.IH by blast
  then show ?case by simp
qed

lemma filter_name_has_names:
  "filter_name n (map PDict xs) = Inr js \<Longrightarrow> has_names xs"
proof (induction xs arbitrary: js)
  case Nil
  then show ?case by (simp add: has_names_def)
next
  case (Cons x xs)
  then show ?case
    by (auto simp: has_names_def key_in_iff split: sum.splits option.splits)
qed

lemma filter_name_hd:
  assumes "filter_name n (map PDict xs) = Inr (i # js)"
  shows "i < length xs" and "\<exists>v. map_of (xs ! i) ''name'' = Some v \<and> py_eq v n"
proof -
  from filter_name_Inr [OF assms]
  have "i # js = filter (\<lambda>i. \<exists>v. getitem (map PDict xs ! i) ''name'' = Inr v \<and> py_eq v n)
      [0..<length xs]" by simp
  then have "i \<in> set (filter (\<lambda>i. \<exists>v. getitem (map PDict xs ! i) ''name'' = Inr v \<and> py_eq v n)
      [0..<length xs])"
    by (metis list.set_intros(1))
  then have "i \<in> set [0..<length xs]"
    and *: "\<exists>v. getitem (map PDict xs ! i) ''name'' = Inr v \<and> py_eq v n"
    unfolding set_filter by blast+
  then have i: "i < length xs" by simp
  then have "map PDict xs ! i = PDict (xs ! i)" by simp
  with * obtain v where "getitem (PDict (xs ! i)) ''name'' = Inr v" and "py_eq v n"
    by metis
  then have "map_of (xs ! i) ''name'' = Some v \<and> py_eq v n"
    by (simp split: option.splits)
  with i show "i < length xs" and "\<exists>v. map_of (xs ! i) ''name'' = Some v \<and> py_eq v n"
    by blast+
qed

lemma filter_name_list_update:
  assumes "i < length xs" and "map_of y ''name'' = map_of (xs ! i) ''name''"
  shows "filter_name n (map PDict (xs[i := y])) = filter_name n (map PDict xs)"
proof (rule filter_name_cong)
  have "map (\<lambda>x. getitem x ''name'') (map PDict (xs[i := y])) =
        (map (\<lambda>x. getitem (PDict x) ''name'') xs)[i := getitem (PDict y) ''name'']"
    by (simp add: map_update comp_def)
  also have "\<dots> = map (\<lambda>x. getitem (PDict x) ''name'') xs"
    using assms by (simp add: list_update_same_conv)
  finally show "map (\<lambda>x. getitem x ''name'') (map PDict (xs[i := y])) =
      map (\<lambda>x. getitem x ''name'') (map PDict xs)"
    by (simp add: comp_def)
qed

lemma filter_name_snoc:
  "filter_name n (map PDict (xs @ [y])) =
     (case filter_name n (map PDict xs) of
        Inl e \<Rightarrow> Inl e
      | Inr js \<Rightarrow>
          (case map_of y ''name'' of
             None \<Rightarrow> Inl (KeyError ''name'')
           | Some v \<Rightarrow> Inr (js @ (if py_eq v n then [length xs] else []))))"
  using filter_name_append [of n "map PDict xs" "PDict y"]
  by (simp split: sum.splits option.splits)

subsection \<open>The methods as find-or-create steps\<close>

lemma add_generic_snd:
  "snd (add_generic m n v d kw) =
     (if clashes [''name'', ''value'', ''description''] kw \<or> \<not> isinstance n [StrType] \<or>
         \<not> isinstance v [BoolType, IntType, IntbvType, StrType]
      then m
      else m\<lparr>generics :=
             find_or_create n (generic_after v d kw) (get_new_generic [(''name'', n)])
               (generics m)\<rparr>)"
proof (cases "filter_name n (map PDict (generics m))")
  case (Inl a)
  then show ?thesis by (simp add: add_generic_def find_or_create_def)
next
  case (Inr js)
  then show ?thesis
    by (cases js) (simp_all add: add_generic_def find_or_create_def generic_after_def Let_def)
qed


lemma add_external_signal_snd:
  "snd (add_external_signal m n dir v d kw) =
     (if clashes [''name'', ''direction'', ''value'', ''description''] kw \<or>
         \<not> isinstance n [StrType] \<or>
         \<not> isinstance (if isinstance v [SignalType] then init_of v else v)
             [BoolType, IntType, IntbvType] \<or>
         \<not> (\<exists>x \<in> set [PStr ''in'', PStr ''out'']. py_eq dir x)
      then m
      else m\<lparr>external_signals :=
             find_or_create n
               (signal_after dir (if isinstance v [SignalType] then init_of v else v) d kw)
               (get_new_signal [(''name'', n)]) (external_signals m)\<rparr>)"
proof -
  define w where "w = (if isinstance v [SignalType] then init_of v else v)"
  show ?thesis
  proof (cases "filter_name n (map PDict (external_signals m))")
    case (Inl a)
    then show ?thesis
      unfolding add_external_signal_def Let_def w_def [symmetric]
      by (simp add: find_or_create_def)
  next
    case (Inr js)
    then show ?thesis
      unfolding add_external_signal_def Let_def w_def [symmetric]
      by (cases js) (simp_all add: find_or_create_def signal_after_def)
  qed
qed

lemma add_port_snd:
  "snd (add_port m n sd d kw) =
     (if clashes [''name'', ''signal_desc'', ''description''] kw \<or> \<not> isinstance n [StrType] \<or>
         bad_signal_desc sd
      then m
      else m\<lparr>ports :=
             find_or_create n (port_after sd d kw) (get_new_port [(''name'', n)]) (ports m)\<rparr>)"
proof (cases "filter_name n (map PDict (ports m))")
  case (Inl a)
  then show ?thesis by (simp add: add_port_def find_or_create_def)
next
  case (Inr js)
  show ?thesis
  proof (cases js)
    case Nil
    with Inr show ?thesis
      by (simp add: add_port_def find_or_create_def port_after_def described_def Let_def
          split: option.splits sum.splits)
  next
    case (Cons i js')
    with Inr show ?thesis
      by (simp add: add_port_def find_or_create_def port_after_def described_def Let_def
          split: option.splits sum.splits)
  qed
qed


lemma filter_name_snoc_PDict:
  "filter_name n (map PDict xs @ [PDict y]) =
     (case filter_name n (map PDict xs) of
        Inl e \<Rightarrow> Inl e
      | Inr js \<Rightarrow>
          (case map_of y ''name'' of
             None \<Rightarrow> Inl (KeyError ''name'')
           | Some v \<Rightarrow> Inr (js @ (if py_eq v n then [length xs] else []))))"
  using filter_name_snoc [of n xs y] by simp

lemma find_or_create_commute:
  assumes ab: "a \<noteq> b"
    and ua: "\<And>g. map_of (ua g) ''name'' = map_of g ''name''"
    and ub: "\<And>g. map_of (ub g) ''name'' = map_of g ''name''"
    and ca: "map_of ca ''name'' = Some (PStr a)"
    and cb: "map_of cb ''name'' = Some (PStr b)"
  shows "find_or_create (PStr b) ub cb (find_or_create (PStr a) ua ca xs) =
           find_or_create (PStr a) ua ca (find_or_create (PStr b) ub cb xs) \<or>
         (find_or_create (PStr b) ub cb (find_or_create (PStr a) ua ca xs) = xs @ [ua ca, ub cb] \<and>
          find_or_create (PStr a) ua ca (find_or_create (PStr b) ub cb xs) = xs @ [ub cb, ua ca])"
proof (cases "filter_name (PStr a) (map PDict xs)")
  case (Inl e)
  then have "filter_name (PStr b) (map PDict xs) = Inl e"
    by (rule filter_name_Inl_indep)
  with Inl show ?thesis by (simp add: find_or_create_def)
next
  case ja: (Inr ja)
  then have "has_names xs" by (rule filter_name_has_names)
  then obtain jb where jb: "filter_name (PStr b) (map PDict xs) = Inr jb"
    using has_names_filter_name by blast
  have uca: "map_of (ua ca) ''name'' = Some (PStr a)" using ua ca by simp
  have ucb: "map_of (ub cb) ''name'' = Some (PStr b)" using ub cb by simp
  show ?thesis
  proof (cases ja)
    case Nil
    note a_new = Nil
    have fa: "find_or_create (PStr a) ua ca xs = xs @ [ua ca]"
      using ja Nil by (simp add: find_or_create_def)
    show ?thesis
    proof (cases jb)
      case Nil
      have fb: "find_or_create (PStr b) ub cb xs = xs @ [ub cb]"
        using jb Nil by (simp add: find_or_create_def)
      have "filter_name (PStr b) (map PDict (xs @ [ua ca])) = Inr []"
        using jb Nil uca ab by (simp add: filter_name_snoc_PDict)
      then have 1: "find_or_create (PStr b) ub cb (xs @ [ua ca]) = xs @ [ua ca, ub cb]"
        by (simp add: find_or_create_def)
      have "filter_name (PStr a) (map PDict (xs @ [ub cb])) = Inr []"
        using ja a_new ucb ab by (simp add: filter_name_snoc_PDict)
      then have 2: "find_or_create (PStr a) ua ca (xs @ [ub cb]) = xs @ [ub cb, ua ca]"
        by (simp add: find_or_create_def)
      from 1 2 fa fb show ?thesis by simp
    next
      case (Cons j jb')
      from filter_name_hd [OF jb [unfolded Cons]] have j: "j < length xs" by simp
      have fb: "find_or_create (PStr b) ub cb xs = xs[j := ub (xs ! j)]"
        using jb Cons by (simp add: find_or_create_def)
      have "filter_name (PStr b) (map PDict (xs @ [ua ca])) = Inr (j # jb')"
        using jb Cons uca ab by (simp add: filter_name_snoc_PDict)
      then have 1: "find_or_create (PStr b) ub cb (xs @ [ua ca]) = xs[j := ub (xs ! j)] @ [ua ca]"
        using j by (simp add: find_or_create_def list_update_append nth_append)
      have "filter_name (PStr a) (map PDict (xs[j := ub (xs ! j)])) = Inr []"
        using ja a_new j ub by (simp add: filter_name_list_update)
      then have 2: "find_or_create (PStr a) ua ca (xs[j := ub (xs ! j)]) =
          xs[j := ub (xs ! j)] @ [ua ca]"
        by (simp add: find_or_create_def)
      from 1 2 fa fb show ?thesis by simp
    qed
  next
    case (Cons i ja')
    note a_old = Cons
    from filter_name_hd [OF ja [unfolded Cons]] obtain v where i: "i < length xs"
      and v: "map_of (xs ! i) ''name'' = Some v" "py_eq v (PStr a)" by blast
    have fa: "find_or_create (PStr a) ua ca xs = xs[i := ua (xs ! i)]"
      using ja Cons by (simp add: find_or_create_def)
    show ?thesis
    proof (cases jb)
      case Nil
      have fb: "find_or_create (PStr b) ub cb xs = xs @ [ub cb]"
        using jb Nil by (simp add: find_or_create_def)
      have "filter_name (PStr a) (map PDict (xs @ [ub cb])) = Inr (i # ja')"
        using ja a_old ucb ab by (simp add: filter_name_snoc_PDict)
      then have 1: "find_or_create (PStr a) ua ca (xs @ [ub cb]) = xs[i := ua (xs ! i)] @ [ub cb]"
        using i by (simp add: find_or_create_def list_update_append nth_append)
      have "filter_name (PStr b) (map PDict (xs[i := ua (xs ! i)])) = Inr []"
        using jb Nil i ua by (simp add: filter_name_list_update)
      then have 2: "find_or_create (PStr b) ub cb (xs[i := ua (xs ! i)]) =
          xs[i := ua (xs ! i)] @ [ub cb]"
        by (simp add: find_or_create_def)
      from 1 2 fa fb show ?thesis by simp
    next
      case (Cons j jb')
      from filter_name_hd [OF jb [unfolded Cons]] obtain w where j: "j < length xs"
        and w: "map_of (xs ! j) ''name'' = Some w" "py_eq w (PStr b)" by blast
      have ij: "i \<noteq> j"
      proof
        assume "i = j"
        with v w have "py_eq v (PStr a)" and "py_eq v (PStr b)" by simp_all
        then have "a = b" by (rule py_eq_PStr_unique)
        with ab show False ..
      qed
      have fb: "find_or_create (PStr b) ub cb xs = xs[j := ub (xs ! j)]"
        using jb Cons by (simp add: find_or_create_def)
      have "filter_name (PStr b) (map PDict (xs[i := ua (xs ! i)])) = Inr (j # jb')"
        using jb Cons i ua by (simp add: filter_name_list_update)
      then have 1: "find_or_create (PStr b) ub cb (xs[i := ua (xs ! i)]) =
          xs[i := ua (xs ! i), j := ub (xs ! j)]"
        using ij by (simp add: find_or_create_def)
      have "filter_name (PStr a) (map PDict (xs[j := ub (xs ! j)])) = Inr (i # ja')"
        using ja a_old j ub by (simp add: filter_name_list_update)
      then have 2: "find_or_create (PStr a) ua ca (xs[j := ub (xs ! j)]) =
          xs[j := ub (xs ! j), i := ua (xs ! i)]"
        using ij by (simp add: find_or_create_def)
      from 1 2 fa fb ij show ?thesis by (simp add: list_update_swap)
    qed
  qed
qed

subsection \<open>The hash, part by part\<close>

lemma sort_key_swap_last:
  fixes f :: "'a \<Rightarrow> 'k::linorder"
  assumes "f x \<noteq> f y"
  shows "sort_key f (xs @ [x, y]) = sort_key f (xs @ [y, x])"
proof (rule properties_for_sort_key)
  show "mset (sort_key f (xs @ [y, x])) = mset (xs @ [x, y])" by simp
  show "sorted (map f (sort_key f (xs @ [y, x])))" by simp
  fix k
  have "filter (\<lambda>z. f z = f k) (sort_key f (xs @ [y, x])) = filter (\<lambda>z. f z = f k) (xs @ [y, x])"
    by (rule sort_key_stable)
  also have "\<dots> = filter (\<lambda>z. f z = f k) (xs @ [x, y])"
    using assms by auto
  finally show "filter (\<lambda>z. f k = f z) (sort_key f (xs @ [y, x])) =
      filter (\<lambda>z. f k = f z) (xs @ [x, y])"
    by (simp add: eq_commute [of "f k"])
qed

lemma those_append:
  "those (xs @ ys) =
     (case those xs of
        None \<Rightarrow> None
      | Some a \<Rightarrow> (case those ys of None \<Rightarrow> None | Some b \<Rightarrow> Some (a @ b)))"
  by (induction xs) (auto split: option.splits)

lemma entries_append:
  "entries f (xs @ ys) =
     (case entries f xs of
        Inl e \<Rightarrow> Inl e
      | Inr a \<Rightarrow> (case entries f ys of Inl e \<Rightarrow> Inl e | Inr b \<Rightarrow> Inr (a @ b)))"
  by (induction xs) (auto split: sum.splits)

lemma hash_stream_swap_last:
  assumes "a \<noteq> b"
  shows "hash_stream (es @ [PStr a # t # r, PStr b # t' # r']) =
         hash_stream (es @ [PStr b # t' # r', PStr a # t # r])"
proof (cases "those (map name_type es)")
  case None
  then show ?thesis by (simp add: hash_stream_def those_append)
next
  case (Some ps)
  show ?thesis
  proof (cases "name_type (PStr a # t # r)")
    case None
    with Some show ?thesis
      by (simp add: hash_stream_def those_append split: option.splits)
  next
    case pa: (Some pa)
    show ?thesis
    proof (cases "name_type (PStr b # t' # r')")
      case None
      with Some pa show ?thesis
        by (simp add: hash_stream_def those_append split: option.splits)
    next
      case pb: (Some pb)
      from pa have "fst pa = a" by (cases t) auto
      moreover from pb have "fst pb = b" by (cases t') auto
      ultimately have "fst pa \<noteq> fst pb" using assms by simp
      then have "sort_key fst (ps @ [pa, pb]) = sort_key fst (ps @ [pb, pa])"
        by (rule sort_key_swap_last)
      with Some pa pb show ?thesis
        by (simp add: hash_stream_def those_append del: name_type.simps)
    qed
  qed
qed

lemma hash_part_swap_last:
  assumes "a \<noteq> b"
    and "f x = Inl E \<or> (\<exists>t r. f x = Inr (PStr a # t # r))"
    and "f y = Inl E \<or> (\<exists>t r. f y = Inr (PStr b # t # r))"
  shows "hash_part f (xs @ [x, y]) = hash_part f (xs @ [y, x])"
proof (cases "entries f xs")
  case (Inl e)
  then show ?thesis by (simp add: hash_part_def entries_append)
next
  case (Inr es)
  show ?thesis
  proof (cases "f x = Inl E \<or> f y = Inl E")
    case True
    with Inr assms(2,3) show ?thesis
      by (auto simp: hash_part_def entries_append)
  next
    case False
    with assms(2,3) obtain t r t' r' where "f x = Inr (PStr a # t # r)"
      and "f y = Inr (PStr b # t' # r')" by blast
    with Inr hash_stream_swap_last [OF assms(1), of es t r t' r'] show ?thesis
      by (simp add: hash_part_def entries_append)
  qed
qed

lemma model_hash_parts:
  "fst (model_hash m) =
     (case hash_part generic_entry (generics m) of
        Inl e \<Rightarrow> Raises e
      | Inr h1 \<Rightarrow>
          (case hash_part port_entry (ports m) of
             Inl e \<Rightarrow> Raises e
           | Inr h2 \<Rightarrow>
               (case hash_part external_entry (external_signals m) of
                  Inl e \<Rightarrow> Raises e
                | Inr h3 \<Rightarrow>
                    (case (h1, h2, h3) of
                       (Some s1, Some s2, Some s3) \<Rightarrow> Returns (s1 @ s2 @ s3)
                     | _ \<Rightarrow> Unmodelled))))"
  by (simp add: model_hash_def hash_part_def Let_def split: sum.splits option.splits)

subsection \<open>What the updates keep\<close>

lemma not_clashes_name: "\<not> clashes (''name'' # ps) kw \<Longrightarrow> ''name'' \<notin> fst ` set kw"
  by (simp add: clashes_def)

lemma keys_update_mono: "fst ` set d \<subseteq> fst ` set (AList.update k v d)"
  using dom_update [of k v d] by auto

lemma keys_dict_update_mono: "fst ` set d \<subseteq> fst ` set (dict_update d kw)"
  using keys_dict_update [of d kw] by auto

lemma map_of_dict_update_other_image:
  "k \<notin> fst ` set kw \<Longrightarrow> map_of (dict_update d kw) k = map_of d k"
  using map_of_dict_update_other [of k kw d] by simp

lemma generic_after_name:
  "''name'' \<notin> fst ` set kw \<Longrightarrow> map_of (generic_after v d kw g) ''name'' = map_of g ''name''"
  by (simp add: generic_after_def map_of_dict_update_other_image)

lemma generic_after_keys: "fst ` set g \<subseteq> fst ` set (generic_after v d kw g)"
  unfolding generic_after_def using keys_dict_update_mono by (meson order_trans)

lemma signal_after_name:
  "''name'' \<notin> fst ` set kw \<Longrightarrow>
   map_of (signal_after dir v d kw g) ''name'' = map_of g ''name''"
  by (simp add: signal_after_def map_of_dict_update_other_image)

lemma signal_after_keys: "fst ` set g \<subseteq> fst ` set (signal_after dir v d kw g)"
  unfolding signal_after_def using keys_dict_update_mono by (meson order_trans)

lemma described_other:
  "k \<noteq> ''description'' \<Longrightarrow> map_of (described d p) k = map_of p k"
  by (simp add: described_def map_of_dict_update_other_image)

lemma described_keys: "fst ` set p \<subseteq> fst ` set (described d p)"
  unfolding described_def using keys_dict_update_mono by simp

lemma merge_signal_result:
  assumes "merge_signal p sd = Inr p'"
  shows "\<exists>sigs. p' = AList.update ''signal_list'' (PList sigs) p"
proof (cases "map_of p ''signal_list''")
  case None
  with assms show ?thesis by (simp add: merge_signal_def)
next
  case (Some sl)
  show ?thesis
  proof (cases sl)
    case (PList sigs)
    show ?thesis
    proof (cases "map_of sd ''name''")
      case None
      with assms Some PList show ?thesis by (simp add: merge_signal_def)
    next
      case sdn: (Some n)
      show ?thesis
      proof (cases "filter_name n sigs")
        case (Inl a)
        with assms Some PList sdn show ?thesis by (simp add: merge_signal_def)
      next
        case (Inr js)
        show ?thesis
        proof (cases js)
          case Nil
          with assms Some PList sdn Inr
          have "p' = AList.update ''signal_list'' (PList (sigs @ [PDict sd])) p"
            by (simp add: merge_signal_def)
          then show ?thesis ..
        next
          case (Cons j js')
          show ?thesis
          proof (cases "sigs ! j")
            case (PDict s)
            with assms Some PList sdn Inr Cons
            have "p' = AList.update ''signal_list''
                (PList (sigs[j := PDict (dict_update s sd)])) p"
              by (simp add: merge_signal_def)
            then show ?thesis ..
          qed (use assms Some PList sdn Inr Cons in \<open>simp_all add: merge_signal_def\<close>)
        qed
      qed
    qed
  qed (use assms Some in \<open>simp_all add: merge_signal_def\<close>)
qed

lemma merge_signal_other:
  assumes "merge_signal p sd = Inr p'" and "k \<noteq> ''signal_list''"
  shows "map_of p' k = map_of p k"
proof -
  from merge_signal_result [OF assms(1)]
  obtain sigs where "p' = AList.update ''signal_list'' (PList sigs) p" ..
  then have "map_of p' = (map_of p)(''signal_list'' \<mapsto> PList sigs)"
    by (simp only: update_conv')
  with assms(2) show ?thesis by simp
qed

lemma merge_signal_keys:
  assumes "merge_signal p sd = Inr p'"
  shows "fst ` set p \<subseteq> fst ` set p'"
proof -
  from merge_signal_result [OF assms(1)]
  obtain sigs where "p' = AList.update ''signal_list'' (PList sigs) p" ..
  then show ?thesis by (simp only: keys_update_mono)
qed

lemma port_after_name:
  assumes "''name'' \<notin> fst ` set kw"
  shows "map_of (port_after sd d kw p) ''name'' = map_of p ''name''"
proof (cases sd)
  case None
  with assms show ?thesis
    by (simp add: port_after_def map_of_dict_update_other_image described_other)
next
  case (Some s)
  show ?thesis
  proof (cases "merge_signal (described d p) s")
    case (Inl e)
    with Some show ?thesis by (simp add: port_after_def described_other)
  next
    case (Inr p')
    with Some assms merge_signal_other [OF Inr, of "''name''"] show ?thesis
      by (simp add: port_after_def map_of_dict_update_other_image described_other)
  qed
qed

lemma port_after_keys: "fst ` set p \<subseteq> fst ` set (port_after sd d kw p)"
proof (cases sd)
  case None
  from described_keys [of p d] keys_dict_update_mono [of "described d p" kw]
  have "fst ` set p \<subseteq> fst ` set (dict_update (described d p) kw)" by (rule order_trans)
  with None show ?thesis by (simp add: port_after_def)
next
  case (Some s)
  show ?thesis
  proof (cases "merge_signal (described d p) s")
    case (Inl e)
    with Some described_keys [of p d] show ?thesis by (simp add: port_after_def)
  next
    case (Inr p')
    from merge_signal_keys [OF Inr] described_keys [of p d] keys_dict_update_mono [of p' kw]
    have "fst ` set p \<subseteq> fst ` set (dict_update p' kw)" by (meson order_trans)
    with Some Inr show ?thesis by (simp add: port_after_def)
  qed
qed

lemma generic_entry_shape:
  assumes "map_of x ''name'' = Some n" and "''type'' \<in> fst ` set x"
  shows "\<exists>t r. generic_entry x = Inr (n # t # r)"
proof -
  from assms(2) obtain t where "map_of x ''type'' = Some t" by (auto simp: key_in_iff)
  with assms(1) show ?thesis by (simp add: generic_entry_def)
qed

lemma external_entry_shape:
  assumes "map_of x ''name'' = Some n" and "''type'' \<in> fst ` set x"
    and "''direction'' \<in> fst ` set x"
  shows "\<exists>t r. external_entry x = Inr (n # t # r)"
proof -
  from assms(2,3) obtain t dir where "map_of x ''type'' = Some t"
    and "map_of x ''direction'' = Some dir" by (auto simp: key_in_iff)
  with assms(1) show ?thesis by (simp add: external_entry_def)
qed

lemma port_entry_shape:
  assumes "map_of x ''name'' = Some n" and "''type'' \<in> fst ` set x"
    and "''signal_list'' \<in> fst ` set x"
  shows "port_entry x = Inl (TypeError len_msg) \<or> (\<exists>t r. port_entry x = Inr (n # t # r))"
proof -
  from assms(2,3) obtain t sl where "map_of x ''type'' = Some t"
    and "map_of x ''signal_list'' = Some sl" by (auto simp: key_in_iff)
  with assms(1) show ?thesis by (cases sl) (simp_all add: port_entry_def)
qed

lemma new_generic_facts:
  "map_of (get_new_generic [(''name'', n)]) ''name'' = Some n"
  "''type'' \<in> fst ` set (get_new_generic [(''name'', n)])"
  by (simp_all add: get_new_generic_def empty_generic_def dict_update_def)

lemma new_port_facts:
  "map_of (get_new_port [(''name'', n)]) ''name'' = Some n"
  "''type'' \<in> fst ` set (get_new_port [(''name'', n)])"
  "''signal_list'' \<in> fst ` set (get_new_port [(''name'', n)])"
  by (simp_all add: get_new_port_def empty_port_def dict_update_def)

lemma new_signal_facts:
  "map_of (get_new_signal [(''name'', n)]) ''name'' = Some n"
  "''type'' \<in> fst ` set (get_new_signal [(''name'', n)])"
  "''direction'' \<in> fst ` set (get_new_signal [(''name'', n)])"
  by (simp_all add: get_new_signal_def empty_signal_def dict_update_def)

subsection \<open>Two steps in either order\<close>

lemma generics_order:
  assumes ab: "a \<noteq> b" and "''name'' \<notin> fst ` set kwa" and "''name'' \<notin> fst ` set kwb"
  shows "hash_part generic_entry
           (find_or_create (PStr b) (generic_after vb db kwb) (get_new_generic [(''name'', PStr b)])
              (find_or_create (PStr a) (generic_after va da kwa)
                 (get_new_generic [(''name'', PStr a)]) xs)) =
         hash_part generic_entry
           (find_or_create (PStr a) (generic_after va da kwa) (get_new_generic [(''name'', PStr a)])
              (find_or_create (PStr b) (generic_after vb db kwb)
                 (get_new_generic [(''name'', PStr b)]) xs))"
proof -
  let ?ua = "generic_after va da kwa" and ?ub = "generic_after vb db kwb"
  let ?ca = "get_new_generic [(''name'', PStr a)]" and ?cb = "get_new_generic [(''name'', PStr b)]"
  have ua: "\<And>g. map_of (?ua g) ''name'' = map_of g ''name''"
    and ub: "\<And>g. map_of (?ub g) ''name'' = map_of g ''name''"
    using assms(2,3) by (simp_all add: generic_after_name)
  have ca: "map_of ?ca ''name'' = Some (PStr a)" and cb: "map_of ?cb ''name'' = Some (PStr b)"
    by (rule new_generic_facts)+
  have "map_of (?ua ?ca) ''name'' = Some (PStr a)" using ua ca by simp
  moreover have "''type'' \<in> fst ` set (?ua ?ca)"
    using generic_after_keys [of ?ca va da kwa] new_generic_facts(2) [of "PStr a"] by blast
  ultimately have hx: "generic_entry (?ua ?ca) = Inl (TypeError len_msg) \<or>
      (\<exists>t r. generic_entry (?ua ?ca) = Inr (PStr a # t # r))"
    using generic_entry_shape by blast
  have "map_of (?ub ?cb) ''name'' = Some (PStr b)" using ub cb by simp
  moreover have "''type'' \<in> fst ` set (?ub ?cb)"
    using generic_after_keys [of ?cb vb db kwb] new_generic_facts(2) [of "PStr b"] by blast
  ultimately have hy: "generic_entry (?ub ?cb) = Inl (TypeError len_msg) \<or>
      (\<exists>t r. generic_entry (?ub ?cb) = Inr (PStr b # t # r))"
    using generic_entry_shape by blast
  from find_or_create_commute [of a b ?ua ?ub ?ca ?cb xs, OF ab ua ub ca cb]
  show ?thesis
  proof
    assume "find_or_create (PStr b) ?ub ?cb (find_or_create (PStr a) ?ua ?ca xs) =
      find_or_create (PStr a) ?ua ?ca (find_or_create (PStr b) ?ub ?cb xs)"
    then show ?thesis by simp
  next
    assume "find_or_create (PStr b) ?ub ?cb (find_or_create (PStr a) ?ua ?ca xs) =
        xs @ [?ua ?ca, ?ub ?cb] \<and>
      find_or_create (PStr a) ?ua ?ca (find_or_create (PStr b) ?ub ?cb xs) =
        xs @ [?ub ?cb, ?ua ?ca]"
    with hash_part_swap_last [OF ab hx hy, of xs] show ?thesis by simp
  qed
qed

lemma signals_order:
  assumes ab: "a \<noteq> b" and "''name'' \<notin> fst ` set kwa" and "''name'' \<notin> fst ` set kwb"
  shows "hash_part external_entry
           (find_or_create (PStr b) (signal_after dirb vb db kwb)
              (get_new_signal [(''name'', PStr b)])
              (find_or_create (PStr a) (signal_after dira va da kwa)
                 (get_new_signal [(''name'', PStr a)]) xs)) =
         hash_part external_entry
           (find_or_create (PStr a) (signal_after dira va da kwa)
              (get_new_signal [(''name'', PStr a)])
              (find_or_create (PStr b) (signal_after dirb vb db kwb)
                 (get_new_signal [(''name'', PStr b)]) xs))"
proof -
  let ?ua = "signal_after dira va da kwa" and ?ub = "signal_after dirb vb db kwb"
  let ?ca = "get_new_signal [(''name'', PStr a)]" and ?cb = "get_new_signal [(''name'', PStr b)]"
  have ua: "\<And>g. map_of (?ua g) ''name'' = map_of g ''name''"
    and ub: "\<And>g. map_of (?ub g) ''name'' = map_of g ''name''"
    using assms(2,3) by (simp_all add: signal_after_name)
  have ca: "map_of ?ca ''name'' = Some (PStr a)" and cb: "map_of ?cb ''name'' = Some (PStr b)"
    by (rule new_signal_facts)+
  have "map_of (?ua ?ca) ''name'' = Some (PStr a)" using ua ca by simp
  moreover have "''type'' \<in> fst ` set (?ua ?ca)" and "''direction'' \<in> fst ` set (?ua ?ca)"
    using signal_after_keys [of ?ca dira va da kwa] new_signal_facts(2,3) [of "PStr a"]
    by blast+
  ultimately have hx: "external_entry (?ua ?ca) = Inl (TypeError len_msg) \<or>
      (\<exists>t r. external_entry (?ua ?ca) = Inr (PStr a # t # r))"
    using external_entry_shape by blast
  have "map_of (?ub ?cb) ''name'' = Some (PStr b)" using ub cb by simp
  moreover have "''type'' \<in> fst ` set (?ub ?cb)" and "''direction'' \<in> fst ` set (?ub ?cb)"
    using signal_after_keys [of ?cb dirb vb db kwb] new_signal_facts(2,3) [of "PStr b"]
    by blast+
  ultimately have hy: "external_entry (?ub ?cb) = Inl (TypeError len_msg) \<or>
      (\<exists>t r. external_entry (?ub ?cb) = Inr (PStr b # t # r))"
    using external_entry_shape by blast
  from find_or_create_commute [of a b ?ua ?ub ?ca ?cb xs, OF ab ua ub ca cb]
  show ?thesis
  proof
    assume "find_or_create (PStr b) ?ub ?cb (find_or_create (PStr a) ?ua ?ca xs) =
      find_or_create (PStr a) ?ua ?ca (find_or_create (PStr b) ?ub ?cb xs)"
    then show ?thesis by simp
  next
    assume "find_or_create (PStr b) ?ub ?cb (find_or_create (PStr a) ?ua ?ca xs) =
        xs @ [?ua ?ca, ?ub ?cb] \<and>
      find_or_create (PStr a) ?ua ?ca (find_or_create (PStr b) ?ub ?cb xs) =
        xs @ [?ub ?cb, ?ua ?ca]"
    with hash_part_swap_last [OF ab hx hy, of xs] show ?thesis by simp
  qed
qed

lemma ports_order:
  assumes ab: "a \<noteq> b" and "''name'' \<notin> fst ` set kwa" and "''name'' \<notin> fst ` set kwb"
  shows "hash_part port_entry
           (find_or_create (PStr b) (port_after sdb db kwb) (get_new_port [(''name'', PStr b)])
              (find_or_create (PStr a) (port_after sda da kwa)
                 (get_new_port [(''name'', PStr a)]) xs)) =
         hash_part port_entry
           (find_or_create (PStr a) (port_after sda da kwa) (get_new_port [(''name'', PStr a)])
              (find_or_create (PStr b) (port_after sdb db kwb)
                 (get_new_port [(''name'', PStr b)]) xs))"
proof -
  let ?ua = "port_after sda da kwa" and ?ub = "port_after sdb db kwb"
  let ?ca = "get_new_port [(''name'', PStr a)]" and ?cb = "get_new_port [(''name'', PStr b)]"
  have ua: "\<And>g. map_of (?ua g) ''name'' = map_of g ''name''"
    and ub: "\<And>g. map_of (?ub g) ''name'' = map_of g ''name''"
    using assms(2,3) by (simp_all add: port_after_name)
  have ca: "map_of ?ca ''name'' = Some (PStr a)" and cb: "map_of ?cb ''name'' = Some (PStr b)"
    by (rule new_port_facts)+
  have "map_of (?ua ?ca) ''name'' = Some (PStr a)" using ua ca by simp
  moreover have "''type'' \<in> fst ` set (?ua ?ca)" and "''signal_list'' \<in> fst ` set (?ua ?ca)"
    using port_after_keys [of ?ca sda da kwa] new_port_facts(2,3) [of "PStr a"]
    by blast+
  ultimately have hx: "port_entry (?ua ?ca) = Inl (TypeError len_msg) \<or>
      (\<exists>t r. port_entry (?ua ?ca) = Inr (PStr a # t # r))"
    using port_entry_shape by blast
  have "map_of (?ub ?cb) ''name'' = Some (PStr b)" using ub cb by simp
  moreover have "''type'' \<in> fst ` set (?ub ?cb)" and "''signal_list'' \<in> fst ` set (?ub ?cb)"
    using port_after_keys [of ?cb sdb db kwb] new_port_facts(2,3) [of "PStr b"]
    by blast+
  ultimately have hy: "port_entry (?ub ?cb) = Inl (TypeError len_msg) \<or>
      (\<exists>t r. port_entry (?ub ?cb) = Inr (PStr b # t # r))"
    using port_entry_shape by blast
  from find_or_create_commute [of a b ?ua ?ub ?ca ?cb xs, OF ab ua ub ca cb]
  show ?thesis
  proof
    assume "find_or_create (PStr b) ?ub ?cb (find_or_create (PStr a) ?ua ?ca xs) =
      find_or_create (PStr a) ?ua ?ca (find_or_create (PStr b) ?ub ?cb xs)"
    then show ?thesis by simp
  next
    assume "find_or_create (PStr b) ?ub ?cb (find_or_create (PStr a) ?ua ?ca xs) =
        xs @ [?ua ?ca, ?ub ?cb] \<and>
      find_or_create (PStr a) ?ua ?ca (find_or_create (PStr b) ?ub ?cb xs) =
        xs @ [?ub ?cb, ?ua ?ca]"
    with hash_part_swap_last [OF ab hx hy, of xs] show ?thesis by simp
  qed
qed

lemma model_hash_cong:
  assumes "hash_part generic_entry (generics m) = hash_part generic_entry (generics m')"
    and "hash_part port_entry (ports m) = hash_part port_entry (ports m')"
    and "hash_part external_entry (external_signals m) =
         hash_part external_entry (external_signals m')"
  shows "fst (model_hash m) = fst (model_hash m')"
  using assms by (simp add: model_hash_parts split: sum.splits)

lemma add_generic_order:
  assumes "a \<noteq> b"
  shows "fst (model_hash (snd (add_generic (snd (add_generic m (PStr a) va da kwa))
                                 (PStr b) vb db kwb))) =
         fst (model_hash (snd (add_generic (snd (add_generic m (PStr b) vb db kwb))
                                 (PStr a) va da kwa)))"
proof -
  define A where "A \<longleftrightarrow> \<not> clashes [''name'', ''value'', ''description''] kwa \<and>
    isinstance va [BoolType, IntType, IntbvType, StrType]"
  define B where "B \<longleftrightarrow> \<not> clashes [''name'', ''value'', ''description''] kwb \<and>
    isinstance vb [BoolType, IntType, IntbvType, StrType]"
  define Fa where "Fa = find_or_create (PStr a) (generic_after va da kwa)
    (get_new_generic [(''name'', PStr a)])"
  define Fb where "Fb = find_or_create (PStr b) (generic_after vb db kwb)
    (get_new_generic [(''name'', PStr b)])"
  have sa: "snd (add_generic M (PStr a) va da kwa) =
      (if A then M\<lparr>generics := Fa (generics M)\<rparr> else M)" for M
    by (simp add: add_generic_snd A_def Fa_def isinstance_Str)
  have sb: "snd (add_generic M (PStr b) vb db kwb) =
      (if B then M\<lparr>generics := Fb (generics M)\<rparr> else M)" for M
    by (simp add: add_generic_snd B_def Fb_def isinstance_Str)
  show ?thesis
  proof (cases "A \<and> B")
    case True
    then have "''name'' \<notin> fst ` set kwa" and "''name'' \<notin> fst ` set kwb"
      by (auto simp: A_def B_def dest: not_clashes_name)
    from generics_order [OF assms this, of vb db va da "generics m"]
    have "hash_part generic_entry (Fb (Fa (generics m))) =
        hash_part generic_entry (Fa (Fb (generics m)))"
      by (simp add: Fa_def Fb_def)
    with True show ?thesis by (simp add: sa sb model_hash_cong)
  next
    case False
    then show ?thesis by (auto simp: sa sb)
  qed
qed

lemma add_port_order:
  assumes "a \<noteq> b"
  shows "fst (model_hash (snd (add_port (snd (add_port m (PStr a) sda da kwa))
                                 (PStr b) sdb db kwb))) =
         fst (model_hash (snd (add_port (snd (add_port m (PStr b) sdb db kwb))
                                 (PStr a) sda da kwa)))"
proof -
  define A where "A \<longleftrightarrow> \<not> clashes [''name'', ''signal_desc'', ''description''] kwa \<and>
    \<not> bad_signal_desc sda"
  define B where "B \<longleftrightarrow> \<not> clashes [''name'', ''signal_desc'', ''description''] kwb \<and>
    \<not> bad_signal_desc sdb"
  define Fa where "Fa = find_or_create (PStr a) (port_after sda da kwa)
    (get_new_port [(''name'', PStr a)])"
  define Fb where "Fb = find_or_create (PStr b) (port_after sdb db kwb)
    (get_new_port [(''name'', PStr b)])"
  have sa: "snd (add_port M (PStr a) sda da kwa) =
      (if A then M\<lparr>ports := Fa (ports M)\<rparr> else M)" for M
    by (simp add: add_port_snd A_def Fa_def isinstance_Str)
  have sb: "snd (add_port M (PStr b) sdb db kwb) =
      (if B then M\<lparr>ports := Fb (ports M)\<rparr> else M)" for M
    by (simp add: add_port_snd B_def Fb_def isinstance_Str)
  show ?thesis
  proof (cases "A \<and> B")
    case True
    then have "''name'' \<notin> fst ` set kwa" and "''name'' \<notin> fst ` set kwb"
      by (auto simp: A_def B_def dest: not_clashes_name)
    from ports_order [OF assms this, of sdb db sda da "ports m"]
    have "hash_part port_entry (Fb (Fa (ports m))) = hash_part port_entry (Fa (Fb (ports m)))"
      by (simp add: Fa_def Fb_def)
    with True show ?thesis by (simp add: sa sb model_hash_cong)
  next
    case False
    then show ?thesis by (auto simp: sa sb)
  qed
qed

lemma add_external_signal_order:
  assumes "a \<noteq> b"
  shows "fst (model_hash (snd (add_external_signal
                                 (snd (add_external_signal m (PStr a) dira va da kwa))
                                 (PStr b) dirb vb db kwb))) =
         fst (model_hash (snd (add_external_signal
                                 (snd (add_external_signal m (PStr b) dirb vb db kwb))
                                 (PStr a) dira va da kwa)))"
proof -
  define wa where "wa = (if isinstance va [SignalType] then init_of va else va)"
  define wb where "wb = (if isinstance vb [SignalType] then init_of vb else vb)"
  define A where "A \<longleftrightarrow>
    \<not> clashes [''name'', ''direction'', ''value'', ''description''] kwa \<and>
    isinstance wa [BoolType, IntType, IntbvType] \<and>
    (\<exists>x \<in> set [PStr ''in'', PStr ''out'']. py_eq dira x)"
  define B where "B \<longleftrightarrow>
    \<not> clashes [''name'', ''direction'', ''value'', ''description''] kwb \<and>
    isinstance wb [BoolType, IntType, IntbvType] \<and>
    (\<exists>x \<in> set [PStr ''in'', PStr ''out'']. py_eq dirb x)"
  define Fa where "Fa = find_or_create (PStr a) (signal_after dira wa da kwa)
    (get_new_signal [(''name'', PStr a)])"
  define Fb where "Fb = find_or_create (PStr b) (signal_after dirb wb db kwb)
    (get_new_signal [(''name'', PStr b)])"
  have sa: "snd (add_external_signal M (PStr a) dira va da kwa) =
      (if A then M\<lparr>external_signals := Fa (external_signals M)\<rparr> else M)" for M
    unfolding add_external_signal_snd wa_def [symmetric] A_def Fa_def
    by (simp add: isinstance_Str)
  have sb: "snd (add_external_signal M (PStr b) dirb vb db kwb) =
      (if B then M\<lparr>external_signals := Fb (external_signals M)\<rparr> else M)" for M
    unfolding add_external_signal_snd wb_def [symmetric] B_def Fb_def
    by (simp add: isinstance_Str)
  show ?thesis
  proof (cases "A \<and> B")
    case True
    then have "''name'' \<notin> fst ` set kwa" and "''name'' \<notin> fst ` set kwb"
      by (auto simp: A_def B_def dest: not_clashes_name)
    from signals_order [OF assms this, of dirb wb db dira wa da "external_signals m"]
    have "hash_part external_entry (Fb (Fa (external_signals m))) =
        hash_part external_entry (Fa (Fb (external_signals m)))"
      by (simp add: Fa_def Fb_def)
    with True show ?thesis by (simp add: sa sb model_hash_cong)
  next
    case False
    then show ?thesis by (auto simp: sa sb)
  qed
qed

subsection \<open>Lookups after a step\<close>




subsection \<open>The merge of a signal\<close>





subsection \<open>Ports\<close>











subsection \<open>What the hash does not read\<close>

lemma same_but_map_of:
  assumes "same_but ks d d'" and "k \<notin> set ks"
  shows "map_of d k = map_of d' k"
proof (cases "k \<in> fst ` set d \<union> fst ` set d'")
  case True
  with assms show ?thesis by (simp add: same_but_def)
next
  case False
  then have "map_of d k = None" and "map_of d' k = None"
    by (simp_all add: map_of_eq_None_iff)
  then show ?thesis by simp
qed

lemma same_but_generic_entry:
  assumes "same_but value_keys g g'"
  shows "generic_entry g = generic_entry g'"
proof -
  have "map_of g ''name'' = map_of g' ''name''" and "map_of g ''type'' = map_of g' ''type''"
    using assms by (auto intro!: same_but_map_of simp: value_keys_def)
  then show ?thesis by (simp add: generic_entry_def split: option.splits)
qed

lemma same_but_external_entry:
  assumes "same_but value_keys g g'"
  shows "external_entry g = external_entry g'"
proof -
  have "map_of g ''name'' = map_of g' ''name''" and "map_of g ''type'' = map_of g' ''type''"
    and "map_of g ''direction'' = map_of g' ''direction''"
    using assms by (auto intro!: same_but_map_of simp: value_keys_def)
  then show ?thesis by (simp add: external_entry_def split: option.splits)
qed

lemma same_signal_list_len:
  assumes "same_signal_list (Some v) (Some v')"
  shows "py_len v = py_len v'"
proof (cases "\<exists>xs ys. v = PList xs \<and> v' = PList ys")
  case True
  with assms show ?thesis by (auto dest: list_all2_lengthD)
next
  case False
  with assms have "v = v'" by (cases v; cases v') simp_all
  then show ?thesis by simp
qed

lemma same_port_entry:
  assumes "same_port p p'"
  shows "port_entry p = port_entry p'"
proof -
  from assms have sb: "same_but (''signal_list'' # value_keys) p p'"
    and sl: "same_signal_list (map_of p ''signal_list'') (map_of p' ''signal_list'')"
    by (simp_all add: same_port_def)
  have n: "map_of p ''name'' = map_of p' ''name''" and t: "map_of p ''type'' = map_of p' ''type''"
    using sb by (auto intro!: same_but_map_of simp: value_keys_def)
  show ?thesis
  proof (cases "map_of p ''signal_list''")
    case None
    with sl have "map_of p' ''signal_list'' = None"
      by (cases "map_of p' ''signal_list''") simp_all
    with None n t show ?thesis by (simp add: port_entry_def split: option.splits)
  next
    case (Some v)
    with sl obtain v' where v': "map_of p' ''signal_list'' = Some v'"
      by (cases "map_of p' ''signal_list''"; cases v) simp_all
    with Some sl have "py_len v = py_len v'" by (simp add: same_signal_list_len)
    with Some v' n t show ?thesis by (simp add: port_entry_def split: option.splits)
  qed
qed

lemma entries_cong_rel:
  assumes "list_all2 R xs ys" and "\<And>x y. R x y \<Longrightarrow> f x = f y"
  shows "entries f xs = entries f ys"
  using assms(1) by (induction rule: list_all2_induct) (simp_all add: assms(2) split: sum.splits)

lemma same_interface_hash:
  assumes "same_interface m m'"
  shows "fst (model_hash m) = fst (model_hash m')"
proof (rule model_hash_cong)
  from assms have g: "list_all2 (same_but value_keys) (generics m) (generics m')"
    and p: "list_all2 same_port (ports m) (ports m')"
    and x: "list_all2 (same_but value_keys) (external_signals m) (external_signals m')"
    by (simp_all add: same_interface_def)
  show "hash_part generic_entry (generics m) = hash_part generic_entry (generics m')"
    using entries_cong_rel [OF g same_but_generic_entry] by (simp add: hash_part_def)
  show "hash_part port_entry (ports m) = hash_part port_entry (ports m')"
    using entries_cong_rel [OF p same_port_entry] by (simp add: hash_part_def)
  show "hash_part external_entry (external_signals m) =
      hash_part external_entry (external_signals m')"
    using entries_cong_rel [OF x same_but_external_entry] by (simp add: hash_part_def)
qed

subsection \<open>A change of one type\<close>

lemma insort_key_update:
  fixes f :: "'a \<Rightarrow> 'k::linorder"
  assumes "j < length S" and "f q = f (S ! j)"
  shows "\<exists>j'. j' < Suc (length S) \<and> insort_key f x (S[j := q]) = (insort_key f x S)[j' := q] \<and>
              insort_key f x S ! j' = S ! j"
  using assms
proof (induction S arbitrary: j)
  case Nil
  then show ?case by simp
next
  case (Cons y ys)
  show ?case
  proof (cases j)
    case 0
    with Cons.prems have fq: "f q = f y" by simp
    show ?thesis
    proof (cases "f x \<le> f y")
      case True
      with fq 0 show ?thesis by (intro exI [of _ 1]) simp
    next
      case False
      with fq 0 show ?thesis by (intro exI [of _ 0]) simp
    qed
  next
    case (Suc k)
    with Cons.prems have k: "k < length ys" and fq: "f q = f (ys ! k)" by simp_all
    show ?thesis
    proof (cases "f x \<le> f y")
      case True
      with Suc k show ?thesis by (intro exI [of _ "Suc (Suc k)"]) simp
    next
      case False
      from Cons.IH [OF k fq] obtain k' where "k' < Suc (length ys)"
        and "insort_key f x (ys[k := q]) = (insort_key f x ys)[k' := q]"
        and "insort_key f x ys ! k' = ys ! k" by blast
      with False Suc show ?thesis by (intro exI [of _ "Suc k'"]) simp
    qed
  qed
qed

lemma insort_key_same_key:
  fixes f :: "'a \<Rightarrow> 'k::linorder"
  assumes "f q = f x"
  shows "\<exists>j. j < Suc (length S) \<and> insort_key f q S = (insort_key f x S)[j := q] \<and>
             insort_key f x S ! j = x"
proof (induction S)
  case Nil
  show ?case by (intro exI [of _ 0]) simp
next
  case (Cons y ys)
  show ?case
  proof (cases "f x \<le> f y")
    case True
    with assms show ?thesis by (intro exI [of _ 0]) simp
  next
    case False
    from Cons.IH obtain j where "j < Suc (length ys)"
      and "insort_key f q ys = (insort_key f x ys)[j := q]" and "insort_key f x ys ! j = x"
      by blast
    with False assms show ?thesis by (intro exI [of _ "Suc j"]) simp
  qed
qed

lemma sort_key_update:
  fixes f :: "'a \<Rightarrow> 'k::linorder"
  assumes "i < length ps" and "f q = f (ps ! i)"
  shows "\<exists>j. j < length ps \<and> sort_key f (ps[i := q]) = (sort_key f ps)[j := q] \<and>
             sort_key f ps ! j = ps ! i"
  using assms
proof (induction ps arbitrary: i)
  case Nil
  then show ?case by simp
next
  case (Cons x xs)
  show ?case
  proof (cases i)
    case 0
    with Cons.prems have "f q = f x" by simp
    from insort_key_same_key [of f q x "sort_key f xs", OF this] 0 show ?thesis by auto
  next
    case (Suc k)
    with Cons.prems have k: "k < length xs" and fq: "f q = f (xs ! k)" by simp_all
    from Cons.IH [OF k fq] obtain j where j: "j < length xs"
      and s: "sort_key f (xs[k := q]) = (sort_key f xs)[j := q]"
      and n: "sort_key f xs ! j = xs ! k" by blast
    from j have "j < length (sort_key f xs)" by simp
    moreover from fq n have "f q = f (sort_key f xs ! j)" by simp
    ultimately obtain j' where "j' < Suc (length (sort_key f xs))"
      and "insort_key f x ((sort_key f xs)[j := q]) = (insort_key f x (sort_key f xs))[j' := q]"
      and "insort_key f x (sort_key f xs) ! j' = sort_key f xs ! j"
      using insort_key_update [of j "sort_key f xs" f q x] by blast
    with s n Suc show ?thesis by (intro exI [of _ j']) simp
  qed
qed

lemma concat_map_update:
  assumes "j < length S"
  shows "concat (map pr (S[j := q])) =
         concat (map pr (take j S)) @ pr q @ concat (map pr (drop (Suc j) S))"
    and "concat (map pr S) =
         concat (map pr (take j S)) @ pr (S ! j) @ concat (map pr (drop (Suc j) S))"
proof -
  from assms have "S[j := q] = take j S @ q # drop (Suc j) S"
    by (rule upd_conv_take_nth_drop)
  then show "concat (map pr (S[j := q])) =
      concat (map pr (take j S)) @ pr q @ concat (map pr (drop (Suc j) S))" by simp
  from assms have "S = take j S @ S ! j # drop (Suc j) S"
    by (rule id_take_nth_drop)
  then have "concat (map pr S) = concat (map pr (take j S @ S ! j # drop (Suc j) S))"
    by simp
  then show "concat (map pr S) =
      concat (map pr (take j S)) @ pr (S ! j) @ concat (map pr (drop (Suc j) S))" by simp
qed

lemma stream_type_changed:
  fixes ps :: "(string \<times> string) list"
  assumes "i < length ps" and "ps ! i = (n, t)" and "t \<noteq> t'"
  shows "concat (map (\<lambda>g. fst g @ snd g) (sort_key fst (ps[i := (n, t')]))) \<noteq>
         concat (map (\<lambda>g. fst g @ snd g) (sort_key fst ps))"
proof -
  from assms(2) have "fst (n, t') = fst (ps ! i)" by simp
  from sort_key_update [OF assms(1) this] obtain j where j: "j < length ps"
    and s: "sort_key fst (ps[i := (n, t')]) = (sort_key fst ps)[j := (n, t')]"
    and n: "sort_key fst ps ! j = (n, t)" using assms(2) by auto
  from j have j': "j < length (sort_key fst ps)" by simp
  let ?pr = "\<lambda>g :: string \<times> string. fst g @ snd g"
  let ?S = "sort_key fst ps"
  have "concat (map ?pr (?S[j := (n, t')])) =
      concat (map ?pr (take j ?S)) @ ?pr (n, t') @ concat (map ?pr (drop (Suc j) ?S))"
    using j' by (rule concat_map_update(1))
  moreover have "concat (map ?pr ?S) =
      concat (map ?pr (take j ?S)) @ ?pr (?S ! j) @ concat (map ?pr (drop (Suc j) ?S))"
    using j' by (rule concat_map_update(2))
  ultimately show ?thesis using n assms(3) by (simp add: s)
qed

lemma entries_nth:
  "entries f gs = Inr es \<Longrightarrow>
   length es = length gs \<and> (\<forall>i < length gs. f (gs ! i) = Inr (es ! i))"
proof (induction gs arbitrary: es)
  case Nil
  then show ?case by simp
next
  case (Cons g gs)
  then obtain e es' where e: "f g = Inr e" and es': "entries f gs = Inr es'"
    and es: "es = e # es'"
    by (auto split: sum.splits)
  from Cons.IH [OF es'] e es show ?case by (auto simp: nth_Cons split: nat.splits)
qed

lemma entries_list_update:
  "entries f gs = Inr es \<Longrightarrow> i < length gs \<Longrightarrow> f g' = Inr e' \<Longrightarrow>
   entries f (gs[i := g']) = Inr (es[i := e'])"
proof (induction gs arbitrary: es i)
  case Nil
  then show ?case by simp
next
  case (Cons g gs)
  then obtain e es' where e: "f g = Inr e" and es': "entries f gs = Inr es'"
    and es: "es = e # es'"
    by (auto split: sum.splits)
  show ?case
  proof (cases i)
    case 0
    with Cons.prems(3) es' es show ?thesis by simp
  next
    case (Suc k)
    with Cons.prems(2) have "k < length gs" by simp
    from Cons.IH [OF es' this Cons.prems(3)] e es Suc show ?thesis by simp
  qed
qed

lemma those_nth:
  "those xs = Some ps \<Longrightarrow> length ps = length xs \<and> (\<forall>i < length xs. xs ! i = Some (ps ! i))"
proof (induction xs arbitrary: ps)
  case Nil
  then show ?case by simp
next
  case (Cons x xs)
  then obtain p ps' where p: "x = Some p" and ps': "those xs = Some ps'" and ps: "ps = p # ps'"
    by (auto split: option.splits)
  from Cons.IH [OF ps'] p ps show ?case by (auto simp: nth_Cons split: nat.splits)
qed

lemma those_list_update:
  "those xs = Some ps \<Longrightarrow> i < length xs \<Longrightarrow> those (xs[i := Some q]) = Some (ps[i := q])"
proof (induction xs arbitrary: ps i)
  case Nil
  then show ?case by simp
next
  case (Cons x xs)
  then obtain p ps' where p: "x = Some p" and ps': "those xs = Some ps'" and ps: "ps = p # ps'"
    by (auto split: option.splits)
  show ?case
  proof (cases i)
    case 0
    with ps' ps show ?thesis by simp
  next
    case (Suc k)
    with Cons.prems(2) have "k < length xs" by simp
    from Cons.IH [OF ps' this] p ps Suc show ?thesis by simp
  qed
qed

lemma hash_part_type_changed:
  assumes h: "hash_part f gs = Inr (Some h)" and i: "i < length gs"
    and old: "f (gs ! i) = Inr (nm # PStr t # r)"
    and new: "f g' = Inr (nm # PStr t' # r')" and tt: "t \<noteq> t'"
  shows "\<exists>h'. hash_part f (gs[i := g']) = Inr (Some h') \<and> h' \<noteq> h"
proof -
  from h obtain es ps where es: "entries f gs = Inr es"
    and ps: "those (map name_type es) = Some ps"
    and hh: "h = concat (map (\<lambda>g. fst g @ snd g) (sort_key fst ps))"
    by (auto simp: hash_part_def hash_stream_def split: sum.splits option.splits)
  from entries_nth [OF es] i old have len: "length es = length gs"
    and ei: "es ! i = nm # PStr t # r" by auto
  from those_nth [OF ps] i len have lps: "length ps = length gs"
    and "name_type (es ! i) = Some (ps ! i)" by auto
  with ei obtain n where nm: "nm = PStr n" and pi: "ps ! i = (n, t)"
    by (cases nm) auto
  have es': "entries f (gs[i := g']) = Inr (es[i := nm # PStr t' # r'])"
    using es i new by (rule entries_list_update)
  have "map name_type (es[i := nm # PStr t' # r']) = (map name_type es)[i := Some (n, t')]"
    by (simp add: map_update nm)
  moreover have "those ((map name_type es)[i := Some (n, t')]) = Some (ps[i := (n, t')])"
    using ps i len by (intro those_list_update) simp_all
  ultimately have "hash_stream (es[i := nm # PStr t' # r']) =
      Some (concat (map (\<lambda>g. fst g @ snd g) (sort_key fst (ps[i := (n, t')]))))"
    by (simp add: hash_stream_def)
  moreover have "concat (map (\<lambda>g. fst g @ snd g) (sort_key fst (ps[i := (n, t')]))) \<noteq> h"
    unfolding hh using i lps pi tt by (intro stream_type_changed) simp_all
  ultimately show ?thesis using es' by (simp add: hash_part_def)
qed

lemma generic_entry_type:
  assumes "map_of g ''type'' = Some (PStr t)" and "generic_entry g = Inr e"
  shows "\<exists>nm r r'. e = nm # PStr t # r \<and>
           generic_entry (AList.update ''type'' (PStr t') g) = Inr (nm # PStr t' # r')"
  using assms by (auto simp: generic_entry_def update_conv' split: option.splits)

lemma external_entry_type:
  assumes "map_of g ''type'' = Some (PStr t)" and "external_entry g = Inr e"
  shows "\<exists>nm r r'. e = nm # PStr t # r \<and>
           external_entry (AList.update ''type'' (PStr t') g) = Inr (nm # PStr t' # r')"
  using assms by (auto simp: external_entry_def update_conv' split: option.splits)

lemma port_entry_type:
  assumes "map_of g ''type'' = Some (PStr t)" and "port_entry g = Inr e"
  shows "\<exists>nm r r'. e = nm # PStr t # r \<and>
           port_entry (AList.update ''type'' (PStr t') g) = Inr (nm # PStr t' # r')"
  using assms by (auto simp: port_entry_def update_conv' split: option.splits sum.splits)

lemma model_hash_Returns:
  "fst (model_hash m) = Returns h \<longleftrightarrow>
     (\<exists>h1 h2 h3. hash_part generic_entry (generics m) = Inr (Some h1) \<and>
        hash_part port_entry (ports m) = Inr (Some h2) \<and>
        hash_part external_entry (external_signals m) = Inr (Some h3) \<and>
        h = h1 @ h2 @ h3)"
  by (auto simp: model_hash_parts split: sum.splits option.splits)

lemma generic_type_changed:
  assumes "fst (model_hash m) = Returns h" and i: "i < length (generics m)"
    and t: "map_of (generics m ! i) ''type'' = Some (PStr t)" and tt: "t \<noteq> t'"
  shows "\<exists>h'. fst (model_hash
                  (m\<lparr>generics :=
                       (generics m)[i := AList.update ''type'' (PStr t') (generics m ! i)]\<rparr>)) =
                Returns h' \<and> h' \<noteq> h"
proof -
  from assms(1) obtain h1 h2 h3
    where h1: "hash_part generic_entry (generics m) = Inr (Some h1)"
      and h2: "hash_part port_entry (ports m) = Inr (Some h2)"
      and h3: "hash_part external_entry (external_signals m) = Inr (Some h3)"
      and h: "h = h1 @ h2 @ h3"
    by (auto simp: model_hash_Returns)
  from h1 obtain es where "entries generic_entry (generics m) = Inr es"
    by (auto simp: hash_part_def split: sum.splits)
  from entries_nth [OF this] i have "generic_entry (generics m ! i) = Inr (es ! i)" by simp
  from generic_entry_type [OF t this, of t'] obtain nm r r'
    where "generic_entry (generics m ! i) = Inr (nm # PStr t # r)"
      and "generic_entry (AList.update ''type'' (PStr t') (generics m ! i)) =
        Inr (nm # PStr t' # r')"
    using \<open>generic_entry (generics m ! i) = Inr (es ! i)\<close> by auto
  from hash_part_type_changed [OF h1 i this tt] obtain h1'
    where "hash_part generic_entry
        ((generics m)[i := AList.update ''type'' (PStr t') (generics m ! i)]) = Inr (Some h1')"
      and "h1' \<noteq> h1" by blast
  with h2 h3 h show ?thesis
    by (intro exI [of _ "h1' @ h2 @ h3"]) (simp add: model_hash_Returns)
qed

lemma port_type_changed:
  assumes "fst (model_hash m) = Returns h" and i: "i < length (ports m)"
    and t: "map_of (ports m ! i) ''type'' = Some (PStr t)" and tt: "t \<noteq> t'"
  shows "\<exists>h'. fst (model_hash
                  (m\<lparr>ports := (ports m)[i := AList.update ''type'' (PStr t') (ports m ! i)]\<rparr>)) =
                Returns h' \<and> h' \<noteq> h"
proof -
  from assms(1) obtain h1 h2 h3
    where h1: "hash_part generic_entry (generics m) = Inr (Some h1)"
      and h2: "hash_part port_entry (ports m) = Inr (Some h2)"
      and h3: "hash_part external_entry (external_signals m) = Inr (Some h3)"
      and h: "h = h1 @ h2 @ h3"
    by (auto simp: model_hash_Returns)
  from h2 obtain es where "entries port_entry (ports m) = Inr es"
    by (auto simp: hash_part_def split: sum.splits)
  from entries_nth [OF this] i have "port_entry (ports m ! i) = Inr (es ! i)" by simp
  from port_entry_type [OF t this, of t'] obtain nm r r'
    where "port_entry (ports m ! i) = Inr (nm # PStr t # r)"
      and "port_entry (AList.update ''type'' (PStr t') (ports m ! i)) = Inr (nm # PStr t' # r')"
    using \<open>port_entry (ports m ! i) = Inr (es ! i)\<close> by auto
  from hash_part_type_changed [OF h2 i this tt] obtain h2'
    where "hash_part port_entry
        ((ports m)[i := AList.update ''type'' (PStr t') (ports m ! i)]) = Inr (Some h2')"
      and "h2' \<noteq> h2" by blast
  with h1 h3 h show ?thesis
    by (intro exI [of _ "h1 @ h2' @ h3"]) (simp add: model_hash_Returns)
qed

lemma external_type_changed:
  assumes "fst (model_hash m) = Returns h" and i: "i < length (external_signals m)"
    and t: "map_of (external_signals m ! i) ''type'' = Some (PStr t)" and tt: "t \<noteq> t'"
  shows "\<exists>h'. fst (model_hash
                  (m\<lparr>external_signals :=
                       (external_signals m)
                         [i := AList.update ''type'' (PStr t') (external_signals m ! i)]\<rparr>)) =
                Returns h' \<and> h' \<noteq> h"
proof -
  from assms(1) obtain h1 h2 h3
    where h1: "hash_part generic_entry (generics m) = Inr (Some h1)"
      and h2: "hash_part port_entry (ports m) = Inr (Some h2)"
      and h3: "hash_part external_entry (external_signals m) = Inr (Some h3)"
      and h: "h = h1 @ h2 @ h3"
    by (auto simp: model_hash_Returns)
  from h3 obtain es where "entries external_entry (external_signals m) = Inr es"
    by (auto simp: hash_part_def split: sum.splits)
  from entries_nth [OF this] i
  have "external_entry (external_signals m ! i) = Inr (es ! i)" by simp
  from external_entry_type [OF t this, of t'] obtain nm r r'
    where "external_entry (external_signals m ! i) = Inr (nm # PStr t # r)"
      and "external_entry (AList.update ''type'' (PStr t') (external_signals m ! i)) =
        Inr (nm # PStr t' # r')"
    using \<open>external_entry (external_signals m ! i) = Inr (es ! i)\<close> by auto
  from hash_part_type_changed [OF h3 i this tt] obtain h3'
    where "hash_part external_entry
        ((external_signals m)[i := AList.update ''type'' (PStr t') (external_signals m ! i)]) =
        Inr (Some h3')"
      and "h3' \<noteq> h3" by blast
  with h1 h2 h show ?thesis
    by (intro exI [of _ "h1 @ h2 @ h3'"]) (simp add: model_hash_Returns)
qed

subsection \<open>A change of one name\<close>

lemma sum_list_sort_key:
  fixes w :: "'a \<Rightarrow> nat" and f :: "'a \<Rightarrow> 'k::linorder"
  shows "sum_list (map w (sort_key f xs)) = sum_list (map w xs)"
proof -
  have "mset (map w (sort_key f xs)) = mset (map w xs)" by simp
  then have "sum_mset (mset (map w (sort_key f xs))) = sum_mset (mset (map w xs))"
    by (rule arg_cong)
  then show ?thesis by (simp only: sum_mset_sum_list)
qed

lemma sum_list_update_add:
  fixes xs :: "nat list"
  shows "i < length xs \<Longrightarrow> sum_list (xs[i := y]) + xs ! i = sum_list xs + y"
proof (induction xs arbitrary: i)
  case Nil
  then show ?case by simp
next
  case (Cons x xs)
  show ?case
  proof (cases i)
    case 0
    then show ?thesis by simp
  next
    case (Suc k)
    with Cons.prems have "k < length xs" by simp
    from Cons.IH [OF this] Suc show ?thesis by simp
  qed
qed

lemma stream_length:
  fixes ps :: "(string \<times> string) list"
  shows "length (concat (map (\<lambda>g. fst g @ snd g) (sort_key fst ps))) =
         sum_list (map (\<lambda>g. length (fst g) + length (snd g)) ps)"
proof -
  let ?w = "\<lambda>g :: string \<times> string. length (fst g) + length (snd g)"
  have "length (concat (map (\<lambda>g. fst g @ snd g) (sort_key fst ps))) =
      sum_list (map ?w (sort_key fst ps))"
    by (simp add: length_concat comp_def)
  also have "\<dots> = sum_list (map ?w ps)" by (rule sum_list_sort_key)
  finally show ?thesis .
qed

lemma stream_name_changed:
  fixes ps :: "(string \<times> string) list"
  assumes "i < length ps" and "ps ! i = (n, t)" and "length n \<noteq> length n'"
  shows "length (concat (map (\<lambda>g. fst g @ snd g) (sort_key fst (ps[i := (n', t)])))) \<noteq>
         length (concat (map (\<lambda>g. fst g @ snd g) (sort_key fst ps)))"
proof -
  let ?w = "\<lambda>g :: string \<times> string. length (fst g) + length (snd g)"
  have "map ?w (ps[i := (n', t)]) = (map ?w ps)[i := ?w (n', t)]" by (simp add: map_update)
  moreover have "sum_list ((map ?w ps)[i := ?w (n', t)]) + map ?w ps ! i =
      sum_list (map ?w ps) + ?w (n', t)"
    using assms(1) by (intro sum_list_update_add) simp
  moreover have "map ?w ps ! i = length n + length t" using assms(1,2) by simp
  ultimately have "sum_list (map ?w (ps[i := (n', t)])) + (length n + length t) =
      sum_list (map ?w ps) + (length n' + length t)" by simp
  with assms(3) have "sum_list (map ?w (ps[i := (n', t)])) \<noteq> sum_list (map ?w ps)"
    by linarith
  then show ?thesis by (simp add: stream_length)
qed

lemma hash_part_name_changed:
  assumes h: "hash_part f gs = Inr (Some h)" and i: "i < length gs"
    and old: "f (gs ! i) = Inr (PStr n # ty # r)"
    and new: "f g' = Inr (PStr n' # ty # r')" and nn: "length n \<noteq> length n'"
  shows "\<exists>h'. hash_part f (gs[i := g']) = Inr (Some h') \<and> length h' \<noteq> length h"
proof -
  from h obtain es ps where es: "entries f gs = Inr es"
    and ps: "those (map name_type es) = Some ps"
    and hh: "h = concat (map (\<lambda>g. fst g @ snd g) (sort_key fst ps))"
    by (auto simp: hash_part_def hash_stream_def split: sum.splits option.splits)
  from entries_nth [OF es] i old have len: "length es = length gs"
    and ei: "es ! i = PStr n # ty # r" by auto
  from those_nth [OF ps] i len have lps: "length ps = length gs"
    and "name_type (es ! i) = Some (ps ! i)" by auto
  with ei obtain t where ty: "ty = PStr t" and pi: "ps ! i = (n, t)"
    by (cases ty) auto
  have es': "entries f (gs[i := g']) = Inr (es[i := PStr n' # ty # r'])"
    using es i new by (rule entries_list_update)
  have "map name_type (es[i := PStr n' # ty # r']) = (map name_type es)[i := Some (n', t)]"
    by (simp add: map_update ty)
  moreover have "those ((map name_type es)[i := Some (n', t)]) = Some (ps[i := (n', t)])"
    using ps i len by (intro those_list_update) simp_all
  ultimately have "hash_stream (es[i := PStr n' # ty # r']) =
      Some (concat (map (\<lambda>g. fst g @ snd g) (sort_key fst (ps[i := (n', t)]))))"
    by (simp add: hash_stream_def)
  moreover have "length (concat (map (\<lambda>g. fst g @ snd g) (sort_key fst (ps[i := (n', t)])))) \<noteq>
      length h"
    unfolding hh using i lps pi nn by (intro stream_name_changed) simp_all
  ultimately show ?thesis using es' by (simp add: hash_part_def)
qed

lemma generic_entry_name:
  assumes "map_of g ''name'' = Some (PStr n)" and "generic_entry g = Inr e"
  shows "\<exists>ty r r'. e = PStr n # ty # r \<and>
           generic_entry (AList.update ''name'' (PStr n') g) = Inr (PStr n' # ty # r')"
  using assms by (auto simp: generic_entry_def update_conv' split: option.splits)

lemma external_entry_name:
  assumes "map_of g ''name'' = Some (PStr n)" and "external_entry g = Inr e"
  shows "\<exists>ty r r'. e = PStr n # ty # r \<and>
           external_entry (AList.update ''name'' (PStr n') g) = Inr (PStr n' # ty # r')"
  using assms by (auto simp: external_entry_def update_conv' split: option.splits)

lemma port_entry_name:
  assumes "map_of g ''name'' = Some (PStr n)" and "port_entry g = Inr e"
  shows "\<exists>ty r r'. e = PStr n # ty # r \<and>
           port_entry (AList.update ''name'' (PStr n') g) = Inr (PStr n' # ty # r')"
  using assms by (auto simp: port_entry_def update_conv' split: option.splits sum.splits)

section \<open>The claims\<close>

subsection \<open>The implementation section\<close>

text \<open>
  Claim C2: \<^verbatim>\<open>build_implementation\<close> on an object whose \<^verbatim>\<open>codemodel\<close> is absent, or present
  without a callable \<^verbatim>\<open>generate_implementation\<close>, records a warning, leaves
  \<open>implementation\<close> as it was and does not raise. The docstring of the method says the
  same (do nothing on failure, report a warning). The code does not: the local
  \<open>implementation\<close> starts as the empty string, which is a string, so the last statement
  of the method stores it. On an object whose \<^verbatim>\<open>codemodel\<close> has no \<^verbatim>\<open>generate_implementation\<close>
  and whose implementation is \<^verbatim>\<open>"old"\<close>, the call returns with the warning recorded and
  the implementation emptied.
\<close>

theorem build_implementation_lacking_method:
  "build_implementation
     ((init \<lparr>codemodel = Some \<lparr>generate_implementation = None\<rparr>\<rparr>)
        \<lparr>implementation := ''old''\<rparr>) =
   (Inr (),
    (init \<lparr>codemodel = Some \<lparr>generate_implementation = None\<rparr>\<rparr>)
      \<lparr>implementation := '''', warnings := [not_found_msg]\<rparr>)"
  by (simp add: build_implementation_def init_def store_implementation_def warn_def
      isinstance_def)

subsection \<open>What the hash reads\<close>

text \<open>
  Claim C10: \<^verbatim>\<open>model_hash\<close> depends on the generics, the ports and the external signals
  only: two models that agree on the three collections have the same hash, whatever
  their module name, header, libraries and implementation are.
\<close>

theorem model_hash_collections_only:
  assumes "generics m = generics m'" and "ports m = ports m'"
    and "external_signals m = external_signals m'"
  shows "fst (model_hash m) = fst (model_hash m')"
  using assms
  by (simp add: model_hash_def Let_def split: sum.splits option.splits prod.splits)

theorem model_hash_collections_only_witness:
  "generics ((init \<lparr>codemodel = None\<rparr>)\<lparr>generics := [empty_generic]\<rparr>) =
     generics ((init \<lparr>codemodel = None\<rparr>)
       \<lparr>generics := [empty_generic], modulename := ''router'', docheader := ''-- header'',
        libraries := ''library ieee;'', implementation := ''begin end''\<rparr>) \<and>
   fst (model_hash ((init \<lparr>codemodel = None\<rparr>)\<lparr>generics := [empty_generic]\<rparr>)) =
     fst (model_hash ((init \<lparr>codemodel = None\<rparr>)
       \<lparr>generics := [empty_generic], modulename := ''router'', docheader := ''-- header'',
        libraries := ''library ieee;'', implementation := ''begin end''\<rparr>))"
  using model_hash_collections_only
    [of "(init \<lparr>codemodel = None\<rparr>)\<lparr>generics := [empty_generic]\<rparr>"
        "(init \<lparr>codemodel = None\<rparr>)
       \<lparr>generics := [empty_generic], modulename := ''router'', docheader := ''-- header'',
        libraries := ''library ieee;'', implementation := ''begin end''\<rparr>"]
  by (simp add: init_def)

subsection \<open>Validation\<close>

text \<open>
  Claim C3, as amended: each of \<^verbatim>\<open>add_generic\<close>, \<^verbatim>\<open>add_port\<close> and \<^verbatim>\<open>add_external_signal\<close>,
  called with a name that is not a string, raises a TypeError and leaves the model as it
  was: no entry is added. The error is the method's own (name must be string), unless a
  keyword argument names a positional parameter, which Python rejects before the body
  runs.
\<close>

theorem name_must_be_str:
  assumes "\<not> isinstance name [StrType]"
  shows "add_generic m name v d kw =
           (Inl (TypeError (if clashes [''name'', ''value'', ''description''] kw
                            then multiple_msg else name_msg)), m) \<and>
         add_port m name sd d' kw' =
           (Inl (TypeError (if clashes [''name'', ''signal_desc'', ''description''] kw'
                            then multiple_msg else name_msg)), m) \<and>
         add_external_signal m name dir v'' d'' kw'' =
           (Inl (TypeError (if clashes [''name'', ''direction'', ''value'', ''description''] kw''
                            then multiple_msg else name_msg)), m)"
  using assms by (simp add: add_generic_def add_port_def add_external_signal_def)

theorem name_must_be_str_witness:
  "\<not> isinstance PNone [StrType] \<and>
   add_generic (init \<lparr>codemodel = None\<rparr>) PNone (PInt 1) (PStr '''') [] =
     (Inl (TypeError name_msg), init \<lparr>codemodel = None\<rparr>) \<and>
   add_port (init \<lparr>codemodel = None\<rparr>) PNone None (PStr '''') [] =
     (Inl (TypeError name_msg), init \<lparr>codemodel = None\<rparr>) \<and>
   add_external_signal (init \<lparr>codemodel = None\<rparr>) PNone (PStr ''in'') (PInt 1) (PStr '''') [] =
     (Inl (TypeError name_msg), init \<lparr>codemodel = None\<rparr>)"
proof -
  have h: "\<not> isinstance PNone [StrType]" by (simp add: isinstance_def)
  from h name_must_be_str [OF h, of "init \<lparr>codemodel = None\<rparr>" "PInt 1" "PStr ''''" "[]"
      None "PStr ''''" "[]" "PStr ''in''" "PInt 1" "PStr ''''" "[]"]
  show ?thesis by (simp add: clashes_def)
qed

text \<open>
  The claim as it stands asks for the same failure on the empty string. The methods
  test \<^verbatim>\<open>isinstance(name, str)\<close> and nothing else: the empty string is a string, and
  \<^verbatim>\<open>add_generic("", 1)\<close> on a new model returns the new generic, whose name is empty.
\<close>

theorem empty_name_accepted:
  "add_generic (init \<lparr>codemodel = None\<rparr>) (PStr '''') (PInt 1) (PStr '''') [] =
     (Inr [(''class'', PStr ''generic''), (''name'', PStr ''''), (''type'', PStr ''''),
           (''type_array'', PList [PNone, PNone]), (''default_value'', PInt 1),
           (''current_value'', PStr ''''), (''description'', PStr '''')],
      (init \<lparr>codemodel = None\<rparr>)
        \<lparr>generics :=
           [[(''class'', PStr ''generic''), (''name'', PStr ''''), (''type'', PStr ''''),
             (''type_array'', PList [PNone, PNone]), (''default_value'', PInt 1),
             (''current_value'', PStr ''''), (''description'', PStr '''')]]\<rparr>)"
  by (simp add: add_generic_def clashes_def isinstance_def init_def get_new_generic_def
      empty_generic_def dict_update_def Let_def)



text \<open>
  Claim C9: a call of \<^verbatim>\<open>add_generic\<close>, \<^verbatim>\<open>add_port\<close> or \<^verbatim>\<open>add_external_signal\<close> that raises
  a validation error leaves the model, and with it the three collections and their
  records, as it was before the call.
\<close>

theorem add_atomic_on_validation_failure:
  assumes "validation_error e"
  shows "(fst (add_generic m n v d kw) = Inl e \<longrightarrow> snd (add_generic m n v d kw) = m) \<and>
         (fst (add_port m n sd d kw) = Inl e \<longrightarrow> snd (add_port m n sd d kw) = m) \<and>
         (fst (add_external_signal m n dir v d kw) = Inl e \<longrightarrow>
            snd (add_external_signal m n dir v d kw) = m)"
proof (intro conjI impI)
  assume "fst (add_generic m n v d kw) = Inl e"
  then show "snd (add_generic m n v d kw) = m" by (rule add_generic_atomic)
next
  assume "fst (add_external_signal m n dir v d kw) = Inl e"
  then show "snd (add_external_signal m n dir v d kw) = m"
    by (rule add_external_signal_atomic)
next
  assume *: "fst (add_port m n sd d kw) = Inl e"
  show "snd (add_port m n sd d kw) = m"
  proof (cases "e = TypeError name_msg \<or> e = TypeError signal_desc_msg")
    case True
    with * show ?thesis by (rule add_port_atomic)
  next
    case False
    with assms have e: "e = TypeError unsupported_msg \<or> e = ValueError direction_msg"
      by (auto simp: validation_error_def)
    show ?thesis
    proof (cases "clashes [''name'', ''signal_desc'', ''description''] kw \<or>
        \<not> isinstance n [StrType] \<or> bad_signal_desc sd")
      case True
      then show ?thesis by (auto simp: add_port_def)
    next
      case valid: False
      show ?thesis
      proof (cases "filter_name n (map PDict (ports m))")
        case (Inl a)
        with valid show ?thesis by (simp add: add_port_def)
      next
        case (Inr js)
        obtain i ps where ips:
          "(case js of [] \<Rightarrow> (length (ports m), ports m @ [get_new_port [(''name'', n)]])
            | j # _ \<Rightarrow> (j, ports m)) = (i, ps)"
          by (cases "(case js of
                        [] \<Rightarrow> (length (ports m), ports m @ [get_new_port [(''name'', n)]])
                      | j # _ \<Rightarrow> (j, ports m))")
        define p where "p = (if \<not> py_eq d (PStr '''')
                             then dict_update (ps ! i) [(''description'', d)] else ps ! i)"
        show ?thesis
        proof (cases sd)
          case None
          with valid Inr ips * show ?thesis by (simp add: add_port_def Let_def)
        next
          case (Some s)
          show ?thesis
          proof (cases "merge_signal p s")
            case (Inl a)
            with valid Inr ips Some * have "e = a"
              by (simp add: add_port_def Let_def p_def)
            with merge_signal_error [OF Inl] e have False
              by (auto simp: unsupported_msg_def subscript_msg_def iterable_msg_def)
            then show ?thesis ..
          next
            case (Inr b)
            with valid \<open>filter_name n (map PDict (ports m)) = Inr js\<close> ips Some *
            show ?thesis by (simp add: add_port_def Let_def p_def)
          qed
        qed
      qed
    qed
  qed
qed

theorem add_atomic_on_validation_failure_witness:
  "validation_error (TypeError name_msg) \<and>
   fst (add_generic
          ((init \<lparr>codemodel = None\<rparr>)
             \<lparr>generics := [empty_generic], ports := [empty_port],
              external_signals := [empty_signal]\<rparr>)
          (PInt 5) (PInt 1) (PStr ''x'') []) = Inl (TypeError name_msg) \<and>
   snd (add_generic
          ((init \<lparr>codemodel = None\<rparr>)
             \<lparr>generics := [empty_generic], ports := [empty_port],
              external_signals := [empty_signal]\<rparr>)
          (PInt 5) (PInt 1) (PStr ''x'') []) =
     (init \<lparr>codemodel = None\<rparr>)
       \<lparr>generics := [empty_generic], ports := [empty_port],
        external_signals := [empty_signal]\<rparr> \<and>
   fst (add_port
          ((init \<lparr>codemodel = None\<rparr>)
             \<lparr>generics := [empty_generic], ports := [empty_port],
              external_signals := [empty_signal]\<rparr>)
          (PInt 5) None (PStr ''x'') []) = Inl (TypeError name_msg) \<and>
   snd (add_port
          ((init \<lparr>codemodel = None\<rparr>)
             \<lparr>generics := [empty_generic], ports := [empty_port],
              external_signals := [empty_signal]\<rparr>)
          (PInt 5) None (PStr ''x'') []) =
     (init \<lparr>codemodel = None\<rparr>)
       \<lparr>generics := [empty_generic], ports := [empty_port],
        external_signals := [empty_signal]\<rparr> \<and>
   fst (add_external_signal
          ((init \<lparr>codemodel = None\<rparr>)
             \<lparr>generics := [empty_generic], ports := [empty_port],
              external_signals := [empty_signal]\<rparr>)
          (PInt 5) (PStr ''in'') (PInt 1) (PStr ''x'') []) = Inl (TypeError name_msg) \<and>
   snd (add_external_signal
          ((init \<lparr>codemodel = None\<rparr>)
             \<lparr>generics := [empty_generic], ports := [empty_port],
              external_signals := [empty_signal]\<rparr>)
          (PInt 5) (PStr ''in'') (PInt 1) (PStr ''x'') []) =
     (init \<lparr>codemodel = None\<rparr>)
       \<lparr>generics := [empty_generic], ports := [empty_port],
        external_signals := [empty_signal]\<rparr>"
proof -
  define M where "M = (init \<lparr>codemodel = None\<rparr>)
       \<lparr>generics := [empty_generic], ports := [empty_port],
        external_signals := [empty_signal]\<rparr>"
  have v: "validation_error (TypeError name_msg)" by (simp add: validation_error_def)
  have g: "fst (add_generic M (PInt 5) (PInt 1) (PStr ''x'') []) = Inl (TypeError name_msg)"
    by (simp add: add_generic_def clashes_def isinstance_def)
  have p: "fst (add_port M (PInt 5) None (PStr ''x'') []) = Inl (TypeError name_msg)"
    by (simp add: add_port_def clashes_def isinstance_def)
  have x: "fst (add_external_signal M (PInt 5) (PStr ''in'') (PInt 1) (PStr ''x'') []) =
      Inl (TypeError name_msg)"
    by (simp add: add_external_signal_def clashes_def isinstance_def)
  from v g p x
    add_atomic_on_validation_failure [OF v,
      of M "PInt 5" "PInt 1" "PStr ''x''" "[]" None "PStr ''in''"]
  show ?thesis unfolding M_def by blast
qed

subsection \<open>The order of insertion\<close>

text \<open>
  Claim C8: the hash does not depend on the order of insertion. For two generics of
  different names, the model built by adding the first and then the second has the hash
  of the model built the other way round; likewise for two ports and for two external
  signals. This holds from any model to start with, for any values, descriptions and
  extra fields, and also when one of the two calls raises. (Two records of one
  collection differ in their names: a second call with the name of the first does not
  insert, it updates.)
\<close>

theorem model_hash_order_independent:
  assumes "a \<noteq> b"
  shows "fst (model_hash (snd (add_generic (snd (add_generic m (PStr a) va da kwa))
                                 (PStr b) vb db kwb))) =
         fst (model_hash (snd (add_generic (snd (add_generic m (PStr b) vb db kwb))
                                 (PStr a) va da kwa))) \<and>
         fst (model_hash (snd (add_port (snd (add_port m (PStr a) sda pda pkwa))
                                 (PStr b) sdb pdb pkwb))) =
         fst (model_hash (snd (add_port (snd (add_port m (PStr b) sdb pdb pkwb))
                                 (PStr a) sda pda pkwa))) \<and>
         fst (model_hash (snd (add_external_signal
                                 (snd (add_external_signal m (PStr a) dira xva xda xkwa))
                                 (PStr b) dirb xvb xdb xkwb))) =
         fst (model_hash (snd (add_external_signal
                                 (snd (add_external_signal m (PStr b) dirb xvb xdb xkwb))
                                 (PStr a) dira xva xda xkwa)))"
  by (intro conjI add_generic_order add_port_order add_external_signal_order assms)

theorem model_hash_order_independent_witness:
  "''DATA_WIDTH'' \<noteq> ''ADDR_WIDTH'' \<and>
   fst (model_hash (snd (add_generic
          (snd (add_generic (init \<lparr>codemodel = None\<rparr>) (PStr ''DATA_WIDTH'') (PInt 8)
                  (PStr ''data'') [(''type'', PStr ''integer'')]))
          (PStr ''ADDR_WIDTH'') (PInt 4) (PStr ''address'') [(''type'', PStr ''natural'')]))) =
     Returns ''ADDR_WIDTHnaturalDATA_WIDTHinteger'' \<and>
   fst (model_hash (snd (add_generic
          (snd (add_generic (init \<lparr>codemodel = None\<rparr>) (PStr ''ADDR_WIDTH'') (PInt 4)
                  (PStr ''address'') [(''type'', PStr ''natural'')]))
          (PStr ''DATA_WIDTH'') (PInt 8) (PStr ''data'') [(''type'', PStr ''integer'')]))) =
     Returns ''ADDR_WIDTHnaturalDATA_WIDTHinteger''"
proof -
  have ne: "''DATA_WIDTH'' \<noteq> ''ADDR_WIDTH''" by simp
  have ab: "fst (model_hash (snd (add_generic
          (snd (add_generic (init \<lparr>codemodel = None\<rparr>) (PStr ''DATA_WIDTH'') (PInt 8)
                  (PStr ''data'') [(''type'', PStr ''integer'')]))
          (PStr ''ADDR_WIDTH'') (PInt 4) (PStr ''address'') [(''type'', PStr ''natural'')]))) =
     Returns ''ADDR_WIDTHnaturalDATA_WIDTHinteger''"
    by (simp add: add_generic_def clashes_def isinstance_def init_def get_new_generic_def
        empty_generic_def dict_update_def Let_def model_hash_def generic_entry_def
        port_entry_def external_entry_def hash_stream_def)
  from ne ab model_hash_order_independent [OF ne, of "init \<lparr>codemodel = None\<rparr>"
      "PInt 8" "PStr ''data''" "[(''type'', PStr ''integer'')]"
      "PInt 4" "PStr ''address''" "[(''type'', PStr ''natural'')]"]
  show ?thesis by simp
qed

subsection \<open>Adding and updating\<close>







end
